theory Spec2Isabelle
  imports Main
begin

section \<open>JSON values and the JavaScript operations used on them\<close>

text \<open>
  The three documents handled by \<^verbatim>\<open>ConfigManager\<close> and \<^verbatim>\<open>NotificationManager\<close> are
  JSON texts; the code works on what \<^verbatim>\<open>JSON.parse\<close> returns. An object is the list of its
  own properties in enumeration order (property names are distinct), an array the list
  of its elements. Numbers are only tested for zero and copied, so their payload is an
  integer here. Strings are byte strings (UTF-8); the only non-ASCII literals of the code
  are written out byte by byte below.

  \<^verbatim>\<open>undefined\<close> is not a JSON value: the result of a property read is a \<open>json option\<close>,
  with \<open>None\<close> for \<^verbatim>\<open>undefined\<close>.

  Property names are taken not to collide with members of \<^verbatim>\<open>Object.prototype\<close>
  (\<^verbatim>\<open>__proto__\<close>, \<^verbatim>\<open>hasOwnProperty\<close>): every property the code reads on an object is looked
  up among its own properties.
\<close>

datatype json =
    JNull
  | JBool bool
  | JNum int
  | JStr string
  | JArr "json list"
  | JObj "(string \<times> json) list"

type_synonym props = "(string \<times> json) list"

text \<open>
  Errors. The code only ever looks at \<^verbatim>\<open>error.message\<close>; each \<^verbatim>\<open>new Error(prefix + message)\<close>
  of the source is a constructor wrapping the error whose message it embeds. Errors raised by
  the runtime itself either carry the runtime's message (\<open>SyntaxError\<close> from \<^verbatim>\<open>JSON.parse\<close>,
  \<open>FsError\<close> from the file system) or are a \<open>TypeError\<close> (property access on \<^verbatim>\<open>null\<close> or
  \<^verbatim>\<open>undefined\<close>, calling something that is not a function, assigning a property to a
  primitive in strict mode).
\<close>

datatype error =
    TypeError
  | SyntaxError string
  | FsError string
  | DirFailed error
  | ConfigFileMissing
  | ReadFailed error
  | SaveCurrentFailed error
  | SaveSettingsFailed error
  | SaveClaudeJsonFailed error
  | MissingFragment
  | SwitchFailed error

definition bindE :: "error + 'a \<Rightarrow> ('a \<Rightarrow> error + 'b) \<Rightarrow> error + 'b" where
  "bindE m f = (case m of Inl e \<Rightarrow> Inl e | Inr x \<Rightarrow> f x)"

definition wrap :: "(error \<Rightarrow> error) \<Rightarrow> error + 'a \<Rightarrow> error + 'a" where
  "wrap w m = (case m of Inl e \<Rightarrow> Inl (w e) | Inr x \<Rightarrow> Inr x)"

fun map_res :: "('a \<Rightarrow> error + 'b) \<Rightarrow> 'a list \<Rightarrow> error + 'b list" where
  "map_res f [] = Inr []"
| "map_res f (x # xs) =
     (case f x of Inl e \<Rightarrow> Inl e
      | Inr y \<Rightarrow> (case map_res f xs of Inl e \<Rightarrow> Inl e | Inr ys \<Rightarrow> Inr (y # ys)))"



subsection \<open>Truthiness, typeof, property access\<close>

fun truthy :: "json \<Rightarrow> bool" where
  "truthy JNull = False"
| "truthy (JBool b) = b"
| "truthy (JNum n) = (n \<noteq> 0)"
| "truthy (JStr s) = (s \<noteq> [])"
| "truthy (JArr xs) = True"
| "truthy (JObj ps) = True"

fun truthy_v :: "json option \<Rightarrow> bool" where
  "truthy_v None = False"
| "truthy_v (Some v) = truthy v"

text \<open>\<^verbatim>\<open>typeof v === "object"\<close> (true of \<^verbatim>\<open>null\<close> and of arrays).\<close>

fun typeof_object :: "json \<Rightarrow> bool" where
  "typeof_object JNull = True"
| "typeof_object (JArr xs) = True"
| "typeof_object (JObj ps) = True"
| "typeof_object v = False"

text \<open>
  \<^verbatim>\<open>typeof v === "object" && v !== null && !Array.isArray(v)\<close>, the test of \<^verbatim>\<open>deepMerge\<close>.
\<close>

fun is_mapping :: "json \<Rightarrow> bool" where
  "is_mapping (JObj ps) = True"
| "is_mapping v = False"

text \<open>
  \<^verbatim>\<open>v.k\<close> for a fixed name \<open>k\<close> that no prototype defines: a \<open>TypeError\<close> on \<^verbatim>\<open>null\<close>, the own
  property of an object, \<^verbatim>\<open>undefined\<close> on arrays and primitives.
\<close>

fun get :: "json \<Rightarrow> string \<Rightarrow> error + json option" where
  "get JNull k = Inl TypeError"
| "get (JObj ps) k = Inr (map_of ps k)"
| "get v k = Inr None"

fun get_v :: "json option \<Rightarrow> string \<Rightarrow> error + json option" where
  "get_v None k = Inl TypeError"
| "get_v (Some v) k = get v k"

text \<open>\<^verbatim>\<open>o[k] = v\<close> on an object: an existing property keeps its place, a new one goes last.\<close>

fun set_prop :: "props \<Rightarrow> string \<Rightarrow> json \<Rightarrow> props" where
  "set_prop [] k v = [(k, v)]"
| "set_prop ((k', v') # ps) k v =
     (if k' = k then (k, v) # ps else (k', v') # set_prop ps k v)"

definition del_prop :: "props \<Rightarrow> string \<Rightarrow> props" where
  "del_prop ps k = filter (\<lambda>p. fst p \<noteq> k) ps"

text \<open>
  \<^verbatim>\<open>v.k = x\<close> in strict mode (the files are ES modules). On an array the assignment creates
  a property that is not an index: \<^verbatim>\<open>JSON.stringify\<close> does not write it, and none of the callers
  below reads it again, so the array is as it was.
\<close>

fun assign :: "json \<Rightarrow> string \<Rightarrow> json \<Rightarrow> error + json" where
  "assign (JObj ps) k x = Inr (JObj (set_prop ps k x))"
| "assign (JArr xs) k x = Inr (JArr xs)"
| "assign v k x = Inl TypeError"

text \<open>\<^verbatim>\<open>delete v.k\<close> for a name that is neither an index nor \<^verbatim>\<open>length\<close>.\<close>

fun delete_field :: "json \<Rightarrow> string \<Rightarrow> error + json" where
  "delete_field JNull k = Inl TypeError"
| "delete_field (JObj ps) k = Inr (JObj (del_prop ps k))"
| "delete_field v k = Inr v"

text \<open>
  The own enumerable properties of a value, as \<^verbatim>\<open>{...v}\<close>, \<^verbatim>\<open>for (k in v)\<close>, \<^verbatim>\<open>Object.keys\<close> and
  \<^verbatim>\<open>Object.entries\<close> see them: the elements of an array and the characters of a string
  under their indices, nothing for the other primitives.
\<close>

definition digit_chars :: string where
  "digit_chars = ''0123456789''"

fun index_key :: "nat \<Rightarrow> string" where
  "index_key n =
     (if n < 10 then [digit_chars ! n]
      else index_key (n div 10) @ [digit_chars ! (n mod 10)])"

declare index_key.simps [simp del]

definition index_keys :: "nat \<Rightarrow> string list" where
  "index_keys n = map index_key [0..<n]"

fun own_props :: "json \<Rightarrow> props" where
  "own_props (JObj ps) = ps"
| "own_props (JArr xs) = zip (index_keys (length xs)) xs"
| "own_props (JStr s) = zip (index_keys (length s)) (map (\<lambda>c. JStr [c]) s)"
| "own_props v = []"

text \<open>\<^verbatim>\<open>Object.keys(v)\<close>, which throws on \<^verbatim>\<open>undefined\<close> and \<^verbatim>\<open>null\<close>.\<close>

fun object_entries :: "json option \<Rightarrow> error + props" where
  "object_entries None = Inl TypeError"
| "object_entries (Some JNull) = Inl TypeError"
| "object_entries (Some v) = Inr (own_props v)"

subsection \<open>Strings\<close>

fun starts_with :: "string \<Rightarrow> string \<Rightarrow> bool" where
  "starts_with s [] = True"
| "starts_with [] (c # cs) = False"
| "starts_with (x # xs) (c # cs) = (x = c \<and> starts_with xs cs)"

text \<open>\<^verbatim>\<open>s.includes(sub)\<close> on a string.\<close>

fun str_includes :: "string \<Rightarrow> string \<Rightarrow> bool" where
  "str_includes [] sub = (sub = [])"
| "str_includes (x # xs) sub = (starts_with (x # xs) sub \<or> str_includes xs sub)"

text \<open>
  \<^verbatim>\<open>!s.trim()\<close>: the string consists of white space and line terminators only. In UTF-8
  these are the ASCII characters 9 to 13 and 32, U+00A0, U+1680, U+2000 to U+200A, U+2028,
  U+2029, U+202F, U+205F, U+3000 and U+FEFF.
\<close>

definition ws1 :: "char \<Rightarrow> bool" where
  "ws1 a = (of_char a \<in> {9, 10, 11, 12, 13, 32 :: nat})"

definition ws2 :: "char \<Rightarrow> char \<Rightarrow> bool" where
  "ws2 a b = (of_char a = (0xC2 :: nat) \<and> of_char b = (0xA0 :: nat))"

definition ws3 :: "char \<Rightarrow> char \<Rightarrow> char \<Rightarrow> bool" where
  "ws3 a b c =
     (let x = of_char a :: nat; y = of_char b :: nat; z = of_char c :: nat
      in (x = 0xE1 \<and> y = 0x9A \<and> z = 0x80)
       \<or> (x = 0xE2 \<and> y = 0x80 \<and> (0x80 \<le> z \<and> z \<le> 0x8A \<or> z = 0xA8 \<or> z = 0xA9 \<or> z = 0xAF))
       \<or> (x = 0xE2 \<and> y = 0x81 \<and> z = 0x9F)
       \<or> (x = 0xE3 \<and> y = 0x80 \<and> z = 0x80)
       \<or> (x = 0xEF \<and> y = 0xBB \<and> z = 0xBF))"

fun js_blank :: "string \<Rightarrow> bool" where
  "js_blank [] = True"
| "js_blank (a # rest) =
     (if ws1 a then js_blank rest
      else (case rest of
              [] \<Rightarrow> False
            | b # rest1 \<Rightarrow>
                if ws2 a b then js_blank rest1
                else (case rest1 of
                        [] \<Rightarrow> False
                      | c # rest2 \<Rightarrow> ws3 a b c \<and> js_blank rest2)))"

fun is_string :: "json option \<Rightarrow> bool" where
  "is_string (Some (JStr s)) = True"
| "is_string v = False"

section \<open>The files\<close>

text \<open>
  The credential store (\<^verbatim>\<open>api_configs.json\<close>), the live settings document
  (\<^verbatim>\<open>~/.claude/settings.json\<close>) and the live config document (\<^verbatim>\<open>~/.claude/config.json\<close>).
  A file is absent, cannot be read, holds text that \<^verbatim>\<open>JSON.parse\<close> rejects (with the
  message of the \<^verbatim>\<open>SyntaxError\<close>), or holds a JSON document. \<open>dir_error\<close> is the failure of
  \<^verbatim>\<open>fs.ensureDir\<close>, if it fails; the three write errors are the failures of \<^verbatim>\<open>fs.writeFile\<close>
  on each path, if it fails there.
\<close>

datatype path = StorePath | SettingsPath | ClaudeJsonPath

datatype file_state = Absent | Unreadable string | Malformed string | Doc json

record fs =
  dir_error :: "string option"
  store_file :: file_state
  settings_file :: file_state
  claude_json_file :: file_state
  store_write_error :: "string option"
  settings_write_error :: "string option"
  claude_json_write_error :: "string option"

fun file_at :: "fs \<Rightarrow> path \<Rightarrow> file_state" where
  "file_at s StorePath = store_file s"
| "file_at s SettingsPath = settings_file s"
| "file_at s ClaudeJsonPath = claude_json_file s"

fun write_error_at :: "fs \<Rightarrow> path \<Rightarrow> string option" where
  "write_error_at s StorePath = store_write_error s"
| "write_error_at s SettingsPath = settings_write_error s"
| "write_error_at s ClaudeJsonPath = claude_json_write_error s"

fun put_file :: "fs \<Rightarrow> path \<Rightarrow> file_state \<Rightarrow> fs" where
  "put_file s StorePath f = s\<lparr>store_file := f\<rparr>"
| "put_file s SettingsPath f = s\<lparr>settings_file := f\<rparr>"
| "put_file s ClaudeJsonPath f = s\<lparr>claude_json_file := f\<rparr>"

definition pathExists :: "fs \<Rightarrow> path \<Rightarrow> bool" where
  "pathExists s p = (file_at s p \<noteq> Absent)"

text \<open>\<^verbatim>\<open>JSON.parse(await fs.readFile(p, "utf8"))\<close>.\<close>

definition readJson :: "fs \<Rightarrow> path \<Rightarrow> error + json" where
  "readJson s p =
     (case file_at s p of
        Absent \<Rightarrow> Inl (FsError ''ENOENT'')
      | Unreadable m \<Rightarrow> Inl (FsError m)
      | Malformed m \<Rightarrow> Inl (SyntaxError m)
      | Doc j \<Rightarrow> Inr j)"

text \<open>
  \<^verbatim>\<open>await fs.writeFile(p, JSON.stringify(v, null, 2), "utf8")\<close>: afterwards the file parses
  to \<open>v\<close>.
\<close>

definition writeFile :: "fs \<Rightarrow> path \<Rightarrow> json \<Rightarrow> error + fs" where
  "writeFile s p v =
     (case write_error_at s p of
        Some m \<Rightarrow> Inl (FsError m)
      | None \<Rightarrow> Inr (put_file s p (Doc v)))"

section \<open>ConfigManager\<close>

definition ensureConfigDir :: "fs \<Rightarrow> error + unit" where
  "ensureConfigDir s =
     (case dir_error s of None \<Rightarrow> Inr () | Some m \<Rightarrow> Inl (DirFailed (FsError m)))"

text \<open>
  The marker of the catch block of \<^verbatim>\<open>getAllConfigs\<close>: the UTF-8 bytes of the string
  searched for in \<^verbatim>\<open>error.message\<close>, which begins with \<^verbatim>\<open>API\<close>. The message of \<open>ConfigFileMissing\<close>
  starts with it; the prefixes added by the wrapping errors and the \<open>TypeError\<close>
  messages of the runtime do not contain it.
\<close>

definition missing_marker :: string where
  "missing_marker =
     ''API'' @ [CHR 0xE9, CHR 0x85, CHR 0x8D, CHR 0xE7, CHR 0xBD, CHR 0xAE, CHR 0xE6, CHR 0x96,
                CHR 0x87, CHR 0xE4, CHR 0xBB, CHR 0xB6, CHR 0xE4, CHR 0xB8, CHR 0x8D, CHR 0xE5,
                CHR 0xAD, CHR 0x98, CHR 0xE5, CHR 0x9C, CHR 0xA8]"

fun message_has_marker :: "error \<Rightarrow> bool" where
  "message_has_marker ConfigFileMissing = True"
| "message_has_marker (SyntaxError m) = str_includes m missing_marker"
| "message_has_marker (FsError m) = str_includes m missing_marker"
| "message_has_marker (DirFailed e) = message_has_marker e"
| "message_has_marker (ReadFailed e) = message_has_marker e"
| "message_has_marker (SaveCurrentFailed e) = message_has_marker e"
| "message_has_marker (SaveSettingsFailed e) = message_has_marker e"
| "message_has_marker (SaveClaudeJsonFailed e) = message_has_marker e"
| "message_has_marker (SwitchFailed e) = message_has_marker e"
| "message_has_marker TypeError = False"
| "message_has_marker MissingFragment = False"

text \<open>
  The loops \<^verbatim>\<open>for (const siteKey in config.sites) { const site = config.sites[siteKey]; ... }\<close>
  of \<^verbatim>\<open>getAllConfigs\<close> and \<^verbatim>\<open>normalizeConfig\<close>, which update each site in place. Over an
  object or an array the body runs on every element in order; over a string it runs on
  one-character strings, which both bodies leave alone; the other primitives have
  nothing to enumerate.
\<close>

definition for_each_site :: "(json \<Rightarrow> error + json) \<Rightarrow> json \<Rightarrow> error + json" where
  "for_each_site body sites =
     (case sites of
        JObj ps \<Rightarrow>
          (case map_res (\<lambda>p. case body (snd p) of Inl e \<Rightarrow> Inl e
                                | Inr site \<Rightarrow> Inr (fst p, site)) ps of
             Inl e \<Rightarrow> Inl e | Inr ps' \<Rightarrow> Inr (JObj ps'))
      | JArr xs \<Rightarrow>
          (case map_res body xs of Inl e \<Rightarrow> Inl e | Inr xs' \<Rightarrow> Inr (JArr xs'))
      | v \<Rightarrow> Inr v)"

text \<open>\<^verbatim>\<open>if (site.claude && !site.config) { site.config = site.claude; }\<close>\<close>

definition alias_site :: "json \<Rightarrow> error + json" where
  "alias_site site =
     bindE (get site ''claude'') (\<lambda>claude.
       case claude of
         None \<Rightarrow> Inr site
       | Some c \<Rightarrow>
           if truthy c then
             bindE (get site ''config'') (\<lambda>config.
               if \<not> truthy_v config then assign site ''config'' c else Inr site)
           else Inr site)"

text \<open>The body of the \<^verbatim>\<open>try\<close> block of \<^verbatim>\<open>getAllConfigs\<close>.\<close>

definition load_store :: "fs \<Rightarrow> error + json" where
  "load_store s =
     bindE (ensureConfigDir s) (\<lambda>_.
       if \<not> pathExists s StorePath then Inl ConfigFileMissing
       else
         bindE (readJson s StorePath) (\<lambda>config.
           bindE (get config ''sites'') (\<lambda>sites.
             case sites of
               None \<Rightarrow> Inr config
             | Some ss \<Rightarrow>
                 if truthy ss then
                   bindE (for_each_site alias_site ss) (\<lambda>ss'. assign config ''sites'' ss')
                 else Inr config)))"

definition getAllConfigs :: "fs \<Rightarrow> error + json" where
  "getAllConfigs s =
     (case load_store s of
        Inl e \<Rightarrow> if message_has_marker e then Inl e else Inl (ReadFailed e)
      | Inr config \<Rightarrow> Inr config)"

definition getClaudeConfig :: "json \<Rightarrow> error + json" where
  "getClaudeConfig siteConfig =
     bindE (get siteConfig ''claude'') (\<lambda>claude.
       if truthy_v claude then Inr (case claude of Some c \<Rightarrow> c | None \<Rightarrow> JNull)
       else
         bindE (get siteConfig ''config'') (\<lambda>config.
           if truthy_v config then Inr (case config of Some c \<Rightarrow> c | None \<Rightarrow> JNull)
           else Inl MissingFragment))"

text \<open>
  \<^verbatim>\<open>JSON.stringify(site.claude) === JSON.stringify(site.config)\<close>: the serialisation of a
  parsed document writes its properties in enumeration order and is injective, so two
  values have the same text exactly when they are the same value.
\<close>

definition same_serialization :: "json \<Rightarrow> json \<Rightarrow> bool" where
  "same_serialization a b = (a = b)"

text \<open>The body of the loop of \<^verbatim>\<open>normalizeConfig\<close>.\<close>

definition normalize_site :: "json \<Rightarrow> error + json" where
  "normalize_site site =
     bindE (get site ''config'') (\<lambda>config.
     bindE (get site ''claude'') (\<lambda>claude.
       case config of
         None \<Rightarrow> Inr site
       | Some g \<Rightarrow>
           if truthy g \<and> \<not> truthy_v claude then
             bindE (assign site ''claude'' g) (\<lambda>site'. delete_field site' ''config'')
           else
             (case claude of
                None \<Rightarrow> Inr site
              | Some c \<Rightarrow>
                  if truthy c \<and> truthy g then
                    (if same_serialization c g then delete_field site ''config'' else Inr site)
                  else Inr site)))"

definition normalizeConfig :: "json \<Rightarrow> error + json" where
  "normalizeConfig config =
     bindE (get config ''sites'') (\<lambda>sites.
       case sites of
         None \<Rightarrow> Inr config
       | Some ss \<Rightarrow>
           if \<not> truthy ss then Inr config
           else bindE (for_each_site normalize_site ss) (\<lambda>ss'. assign config ''sites'' ss'))"

text \<open>
  An object built by the code itself, whose properties may hold \<^verbatim>\<open>undefined\<close>
  (\<open>None\<close>); \<^verbatim>\<open>JSON.stringify\<close> leaves such properties out.
\<close>

type_synonym memobj = "(string \<times> json option) list"

definition mget :: "memobj \<Rightarrow> string \<Rightarrow> json option" where
  "mget obj k = (case map_of obj k of None \<Rightarrow> None | Some v \<Rightarrow> v)"

fun to_json :: "memobj \<Rightarrow> json" where
  "to_json obj = JObj (concat (map (\<lambda>p. case snd p of None \<Rightarrow> [] | Some v \<Rightarrow> [(fst p, v)]) obj))"

text \<open>\<open>now\<close> is \<^verbatim>\<open>new Date().toISOString()\<close>.\<close>

definition saveCurrentConfig :: "fs \<Rightarrow> string \<Rightarrow> memobj \<Rightarrow> error + fs" where
  "saveCurrentConfig s now config =
     wrap SaveCurrentFailed
       (bindE (ensureConfigDir s) (\<lambda>_.
          let configToSave =
                [(''site'', mget config ''site''),
                 (''siteName'', mget config ''siteName''),
                 (''url'', mget config ''url''),
                 (''urlName'', mget config ''urlName''),
                 (''token'', mget config ''token''),
                 (''tokenName'', mget config ''tokenName''),
                 (''updatedAt'', Some (JStr now))]
          in bindE (getAllConfigs s) (\<lambda>allConfigs.
             bindE (assign allConfigs ''currentConfig'' (to_json configToSave)) (\<lambda>allConfigs'.
             bindE (normalizeConfig allConfigs') (\<lambda>normalizedConfig.
               writeFile s StorePath normalizedConfig)))))"

definition getClaudeConfigJson :: "fs \<Rightarrow> json" where
  "getClaudeConfigJson s =
     (if \<not> pathExists s ClaudeJsonPath then JObj []
      else (case readJson s ClaudeJsonPath of Inl e \<Rightarrow> JObj [] | Inr j \<Rightarrow> j))"

definition getSettings :: "fs \<Rightarrow> json" where
  "getSettings s =
     (if \<not> pathExists s SettingsPath then JObj []
      else (case readJson s SettingsPath of Inl e \<Rightarrow> JObj [] | Inr j \<Rightarrow> j))"

definition saveClaudeConfigJson :: "fs \<Rightarrow> json \<Rightarrow> error + fs" where
  "saveClaudeConfigJson s config =
     wrap SaveClaudeJsonFailed
       (bindE (ensureConfigDir s) (\<lambda>_. writeFile s ClaudeJsonPath config))"

definition saveSettings :: "fs \<Rightarrow> json \<Rightarrow> error + fs" where
  "saveSettings s settings =
     wrap SaveSettingsFailed
       (bindE (ensureConfigDir s) (\<lambda>_. writeFile s SettingsPath settings))"

subsection \<open>deepMerge\<close>

text \<open>\<^verbatim>\<open>result[key] || {}\<close>\<close>

definition or_empty :: "json option \<Rightarrow> json" where
  "or_empty r = (case r of None \<Rightarrow> JObj [] | Some d \<Rightarrow> if truthy d then d else JObj [])"

definition weight :: "props \<Rightarrow> nat" where
  "weight ps = sum_list (map (\<lambda>p. Suc (size (snd p))) ps)"

text \<open>
  \<open>deepMerge target source\<close> starts from \<^verbatim>\<open>{ ...target }\<close> and runs the loop \<open>merge_keys\<close>
  over the properties of \<open>source\<close>, with the result so far as its first argument.
\<close>

function deepMerge :: "json \<Rightarrow> json \<Rightarrow> json"
  and merge_keys :: "props \<Rightarrow> props \<Rightarrow> props" where
  "deepMerge target source = JObj (merge_keys (own_props target) (own_props source))"
| "merge_keys result [] = result"
| "merge_keys result ((key, v) # rest) =
     merge_keys
       (set_prop result key
          (if is_mapping v then deepMerge (or_empty (map_of result key)) v else v))
       rest"
  by pat_completeness auto
termination
proof (relation "measure (\<lambda>x. case x of
           Inl (t, s) \<Rightarrow> Suc (weight (own_props s))
         | Inr (r, ps) \<Rightarrow> weight ps)")
  show "wf (measure (\<lambda>x. case x of
           Inl (t, s) \<Rightarrow> Suc (weight (own_props s))
         | Inr (r, ps) \<Rightarrow> weight ps))"
    by simp
next
  fix target source :: json
  show "(Inr (own_props target, own_props source), Inl (target, source))
        \<in> measure (\<lambda>x. case x of
           Inl (t, s) \<Rightarrow> Suc (weight (own_props s))
         | Inr (r, ps) \<Rightarrow> weight ps)"
    by simp
next
  fix result rest :: props and key :: string and v :: json
  assume "is_mapping v"
  then obtain qs where v: "v = JObj qs"
    by (cases v) auto
  have "weight qs < size (JObj qs)"
    by (induction qs) (auto simp: weight_def)
  with v show "(Inl (or_empty (map_of result key), v), Inr (result, (key, v) # rest))
        \<in> measure (\<lambda>x. case x of
           Inl (t, s) \<Rightarrow> Suc (weight (own_props s))
         | Inr (r, ps) \<Rightarrow> weight ps)"
    by (simp add: weight_def)
next
  fix result rest :: props and key :: string and v :: json
  show "(Inr (set_prop result key
               (if is_mapping v then deepMerge (or_empty (map_of result key)) v else v), rest),
         Inr (result, (key, v) # rest))
        \<in> measure (\<lambda>x. case x of
           Inl (t, s) \<Rightarrow> Suc (weight (own_props s))
         | Inr (r, ps) \<Rightarrow> weight ps)"
    by (simp add: weight_def)
qed

subsection \<open>switchConfig\<close>

text \<open>The label \<^verbatim>\<open>Object.keys\<close> gives a single-string token: two CJK characters and \<^verbatim>\<open>Token\<close>.\<close>

definition default_token_label :: string where
  "default_token_label = [CHR 0xE9, CHR 0xBB, CHR 0x98, CHR 0xE8, CHR 0xAE, CHR 0xA4] @ ''Token''"

text \<open>\<^verbatim>\<open>Object.keys(tokens).find((key) => tokens[key] === token)\<close>\<close>

fun find_key :: "props \<Rightarrow> json \<Rightarrow> string option" where
  "find_key [] x = None"
| "find_key ((k, v) # ps) x = (if v = x then Some k else find_key ps x)"

definition stale_env_keys :: "string list" where
  "stale_env_keys =
     [''ANTHROPIC_AUTH_TOKEN'', ''ANTHROPIC_AUTH_KEY'', ''ANTHROPIC_API_KEY'', ''ANTHROPIC_MODEL'',
      ''ANTHROPIC_BASE_URL'', ''ANTHROPIC_VERTEX_BASE_URL'', ''ANTHROPIC_VERTEX_PROJECT_ID'',
      ''CLAUDE_CODE_USE_VERTEX'', ''CLAUDE_CODE_SKIP_VERTEX_AUTH'']"

text \<open>
  The nine \<^verbatim>\<open>delete currentSettings.env.K\<close> statements, run when \<^verbatim>\<open>currentSettings.env\<close> is
  truthy: on an object they remove the properties, on an array or a truthy primitive
  there is nothing of these names to remove.
\<close>

definition clear_env :: "json \<Rightarrow> json" where
  "clear_env env =
     (case env of
        JObj ps \<Rightarrow> JObj (filter (\<lambda>p. fst p \<notin> set stale_env_keys) ps)
      | v \<Rightarrow> v)"

text \<open>Lines 329 to 347: the settings document before the merge.\<close>

definition clear_settings :: "json \<Rightarrow> error + json" where
  "clear_settings currentSettings =
     bindE (get currentSettings ''env'') (\<lambda>env.
     bindE (case env of
              None \<Rightarrow> Inr currentSettings
            | Some e \<Rightarrow>
                if truthy e then assign currentSettings ''env'' (clear_env e)
                else Inr currentSettings) (\<lambda>cleared.
       delete_field cleared ''model''))"

text \<open>
  Lines 349 to 355: the shallow copy of the fragment, with the token of its \<^verbatim>\<open>env\<close>
  replaced by the chosen one.
\<close>

definition config_to_merge :: "json \<Rightarrow> string \<Rightarrow> error + json" where
  "config_to_merge claudeConfig token =
     (let configToMerge = own_props claudeConfig in
      case map_of configToMerge ''env'' of
        None \<Rightarrow> Inr (JObj configToMerge)
      | Some env \<Rightarrow>
          if truthy env then
            bindE (get env ''ANTHROPIC_AUTH_TOKEN'') (\<lambda>t.
              if truthy_v t then
                bindE (assign env ''ANTHROPIC_AUTH_TOKEN'' (JStr token)) (\<lambda>env'.
                  Inr (JObj (set_prop configToMerge ''env'' env')))
              else Inr (JObj configToMerge))
          else Inr (JObj configToMerge))"

text \<open>Lines 321 to 327, on the live config document.\<close>

definition set_primary_key :: "json \<Rightarrow> json \<Rightarrow> error + json" where
  "set_primary_key currentConfigJson siteName =
     bindE (get currentConfigJson ''primaryApiKey'') (\<lambda>p.
     bindE (if truthy_v p then delete_field currentConfigJson ''primaryApiKey''
            else Inr currentConfigJson) (\<lambda>cj.
       assign cj ''primaryApiKey'' siteName))"

text \<open>Lines 299 to 313: the token's name and the object \<^verbatim>\<open>config\<close>.\<close>

definition build_snapshot :: "string \<Rightarrow> string \<Rightarrow> json \<Rightarrow> error + memobj" where
  "build_snapshot site token claudeConfig =
     bindE (get claudeConfig ''env'') (\<lambda>env.
     bindE (get_v env ''ANTHROPIC_AUTH_TOKEN'') (\<lambda>rawTokens.
       let tokens = (case rawTokens of
                       Some (JStr s) \<Rightarrow> Some (JObj [(default_token_label, JStr s)])
                     | r \<Rightarrow> r)
       in bindE (object_entries tokens) (\<lambda>entries.
          let tokenName = find_key entries (JStr token)
          in bindE (get_v env ''ANTHROPIC_BASE_URL'') (\<lambda>baseUrl.
               Inr [(''site'', Some (JStr site)),
                    (''siteName'', Some (JStr site)),
                    (''ANTHROPIC_BASE_URL'', baseUrl),
                    (''token'', Some (JStr token)),
                    (''tokenName'', map_option JStr tokenName)]))))"

text \<open>
  \<open>switchConfig s now site token siteConfig\<close>: the files before the call, the time of the
  call, and the three arguments (\<open>site\<close> and \<open>token\<close> are strings, as documented). The
  result is the error thrown or the object returned together with the files afterwards.
\<close>

definition switchConfig ::
  "fs \<Rightarrow> string \<Rightarrow> string \<Rightarrow> string \<Rightarrow> json \<Rightarrow> error + (memobj \<times> fs)" where
  "switchConfig s now site token siteConfig =
     wrap SwitchFailed
       (bindE (getClaudeConfig siteConfig) (\<lambda>claudeConfig.
        bindE (build_snapshot site token claudeConfig) (\<lambda>config.
        bindE (saveCurrentConfig s now config) (\<lambda>s1.
          let currentSettings = getSettings s1;
              currentConfigJson = getClaudeConfigJson s1
          in
        bindE (set_primary_key currentConfigJson
                 (case mget config ''siteName'' of Some n \<Rightarrow> n | None \<Rightarrow> JNull)) (\<lambda>configJson'.
        bindE (clear_settings currentSettings) (\<lambda>cleared.
        bindE (config_to_merge claudeConfig token) (\<lambda>configToMerge.
          let mergedSettings = deepMerge cleared configToMerge in
        bindE (saveSettings s1 mergedSettings) (\<lambda>s2.
        bindE (saveClaudeConfigJson s2 configJson') (\<lambda>s3.
          Inr (config, s3))))))))))"

subsection \<open>validateConfig\<close>

text \<open>The body of the loop over \<^verbatim>\<open>Object.entries(config.sites)\<close>; \<open>Inr False\<close> is \<^verbatim>\<open>return false\<close>.\<close>

definition validate_site :: "json \<Rightarrow> error + bool" where
  "validate_site siteConfig =
     bindE (get siteConfig ''url'') (\<lambda>url.
       if \<not> truthy_v url then Inr False
       else
         (case getClaudeConfig siteConfig of
            Inl e \<Rightarrow> Inr False
          | Inr actualConfig \<Rightarrow>
              bindE (get actualConfig ''env'') (\<lambda>env.
                if \<not> truthy_v env then Inr False
                else
                  bindE (get_v env ''ANTHROPIC_AUTH_TOKEN'') (\<lambda>authToken.
                    if \<not> truthy_v authToken then Inr False
                    else
                      bindE (get_v env ''ANTHROPIC_BASE_URL'') (\<lambda>hasBaseUrl.
                      bindE (get_v env ''ANTHROPIC_VERTEX_BASE_URL'') (\<lambda>hasVertexBaseUrl.
                        if truthy_v hasBaseUrl \<and> truthy_v hasVertexBaseUrl then Inr False
                        else if \<not> truthy_v hasBaseUrl \<and> \<not> truthy_v hasVertexBaseUrl then Inr False
                        else if truthy_v hasBaseUrl \<and> \<not> is_string hasBaseUrl then Inr False
                        else if truthy_v hasVertexBaseUrl \<and> \<not> is_string hasVertexBaseUrl
                          then Inr False
                        else
                          (case authToken of
                             Some (JStr t) \<Rightarrow> Inr (\<not> js_blank t)
                           | Some (JObj ps) \<Rightarrow> Inr (ps \<noteq> [])
                           | Some (JArr xs) \<Rightarrow> Inr (xs \<noteq> [])
                           | _ \<Rightarrow> Inr False)))))))"

fun validate_sites :: "props \<Rightarrow> error + bool" where
  "validate_sites [] = Inr True"
| "validate_sites ((siteKey, siteConfig) # rest) =
     (case validate_site siteConfig of
        Inl e \<Rightarrow> Inl e
      | Inr ok \<Rightarrow> if ok then validate_sites rest else Inr False)"

definition validateConfig :: "json \<Rightarrow> error + bool" where
  "validateConfig config =
     (if \<not> truthy config \<or> \<not> typeof_object config then Inr False
      else
        bindE (get config ''sites'') (\<lambda>sites.
          case sites of
            None \<Rightarrow> Inr False
          | Some ss \<Rightarrow>
              if \<not> truthy ss \<or> \<not> typeof_object ss then Inr False
              else validate_sites (own_props ss)))"

section \<open>NotificationManager\<close>



















section \<open>Reading documents in statements\<close>

text \<open>The own property \<open>k\<close> of a value, \<open>None\<close> when it has none of that name.\<close>

definition prop_of :: "json \<Rightarrow> string \<Rightarrow> json option" where
  "prop_of v k = map_of (own_props v) k"

text \<open>The field \<open>k\<close> of an object; a value that is not an object has no fields.\<close>

definition field :: "json \<Rightarrow> string \<Rightarrow> json option" where
  "field v k = (case v of JObj ps \<Rightarrow> map_of ps k | _ \<Rightarrow> None)"

text \<open>
  A Site Entry or fragment \<^emph>\<open>has\<close> a field when the code's test \<^verbatim>\<open>if (v.k)\<close> succeeds:
  the field is there and its value is truthy, as every object is.
\<close>

definition has_field :: "json \<Rightarrow> string \<Rightarrow> bool" where
  "has_field v k = truthy_v (field v k)"

text \<open>The Site Entry under key \<open>k\<close> of a store whose \<^verbatim>\<open>sites\<close> is an object.\<close>

definition site_entry :: "json \<Rightarrow> string \<Rightarrow> json option" where
  "site_entry store k = (case field store ''sites'' of Some ss \<Rightarrow> field ss k | None \<Rightarrow> None)"

text \<open>
  What \<^verbatim>\<open>normalizeConfig\<close> is to make of a Site Entry, in the words of the specification:
  an entry with \<^verbatim>\<open>config\<close> and no \<^verbatim>\<open>claude\<close> has \<^verbatim>\<open>config\<close> renamed to \<^verbatim>\<open>claude\<close>; an entry with
  both, equal, loses \<^verbatim>\<open>config\<close>; any other entry is unchanged.
\<close>

definition normalized_entry :: "json \<Rightarrow> json \<Rightarrow> bool" where
  "normalized_entry site site' =
     (if has_field site ''config'' \<and> \<not> has_field site ''claude'' then
        (\<forall>f. field site' f =
               (if f = ''claude'' then field site ''config''
                else if f = ''config'' then None
                else field site f))
      else if has_field site ''claude'' \<and> has_field site ''config''
              \<and> field site ''claude'' = field site ''config'' then
        (\<forall>f. field site' f = (if f = ''config'' then None else field site f))
      else site' = site)"

text \<open>
  A healthy file system holding three given files: the directories can be ensured and
  every write succeeds.
\<close>

definition fs_of :: "file_state \<Rightarrow> file_state \<Rightarrow> file_state \<Rightarrow> fs" where
  "fs_of store settings claude_json =
     \<lparr>dir_error = None, store_file = store, settings_file = settings,
      claude_json_file = claude_json, store_write_error = None,
      settings_write_error = None, claude_json_write_error = None\<rparr>"

text \<open>
  The read-time pass as the specification words it: every Site Entry of the parsed store
  that has \<^verbatim>\<open>config\<close> and no \<^verbatim>\<open>claude\<close> has its fragment under \<^verbatim>\<open>claude\<close> after the load.
\<close>

definition copied_forward :: "json \<Rightarrow> json \<Rightarrow> bool" where
  "copied_forward before after =
     (\<forall>k site. site_entry before k = Some site \<longrightarrow>
        has_field site ''config'' \<longrightarrow> \<not> has_field site ''claude'' \<longrightarrow>
        (\<exists>site'. site_entry after k = Some site' \<and> field site' ''claude'' = field site ''config''))"

text \<open>
  The read-time pass as the code has it: an entry with \<^verbatim>\<open>claude\<close> and no \<^verbatim>\<open>config\<close> gets
  its fragment under \<^verbatim>\<open>config\<close> as well and keeps every other field; any other entry is
  unchanged.
\<close>

definition aliased_entry :: "json \<Rightarrow> json \<Rightarrow> bool" where
  "aliased_entry site site' =
     (if has_field site ''claude'' \<and> \<not> has_field site ''config'' then
        (\<forall>f. field site' f = (if f = ''config'' then field site ''claude'' else field site f))
      else site' = site)"

definition legacy_store :: json where
  "legacy_store =
     JObj [(''sites'', JObj [(''a'', JObj [(''url'', JStr ''https://a.example''),
             (''config'', JObj [(''env'', JObj [(''ANTHROPIC_AUTH_TOKEN'', JStr ''sk-a''),
                                               (''ANTHROPIC_BASE_URL'', JStr ''https://a.example'')])])])])]"

definition current_store :: json where
  "current_store =
     JObj [(''sites'', JObj [(''a'', JObj [(''url'', JStr ''https://a.example''),
             (''claude'', JObj [(''env'', JObj [(''ANTHROPIC_AUTH_TOKEN'', JStr ''sk-a''),
                                               (''ANTHROPIC_BASE_URL'', JStr ''https://a.example'')])])])])]"

text \<open>
  A file system on which the config directories cannot be created and no store file
  exists.
\<close>

definition dir_failed_fs :: fs where
  "dir_failed_fs =
     \<lparr>dir_error = Some ''EACCES: permission denied'', store_file = Absent,
      settings_file = Absent, claude_json_file = Absent, store_write_error = None,
      settings_write_error = None, claude_json_write_error = None\<rparr>"

text \<open>
  The effective fragment of a Site Entry: \<^verbatim>\<open>claude\<close> if the entry has it, else \<^verbatim>\<open>config\<close>.
\<close>

definition effective_fragment :: "json \<Rightarrow> json option" where
  "effective_fragment site =
     (if has_field site ''claude'' then field site ''claude''
      else if has_field site ''config'' then field site ''config''
      else None)"

text \<open>
  The auth token as the specification admits it (a string that is not blank, or a
  mapping with at least one entry), and as the code admits it (an array with at least
  one element as well).
\<close>

fun token_ok_spec :: "json \<Rightarrow> bool" where
  "token_ok_spec (JStr t) = (\<not> js_blank t)"
| "token_ok_spec (JObj ps) = (ps \<noteq> [])"
| "token_ok_spec v = False"

fun token_ok_code :: "json \<Rightarrow> bool" where
  "token_ok_code (JStr t) = (\<not> js_blank t)"
| "token_ok_code (JObj ps) = (ps \<noteq> [])"
| "token_ok_code (JArr xs) = (xs \<noteq> [])"
| "token_ok_code v = False"

text \<open>
  A valid \<^verbatim>\<open>env\<close>, given what an admissible token is: it has an auth token, exactly one
  of the two base URLs is present, the present one is a string, and the token is
  admissible.
\<close>

definition env_valid :: "(json \<Rightarrow> bool) \<Rightarrow> json \<Rightarrow> bool" where
  "env_valid token_ok env =
     (has_field env ''ANTHROPIC_AUTH_TOKEN''
      \<and> (has_field env ''ANTHROPIC_BASE_URL'' \<noteq> has_field env ''ANTHROPIC_VERTEX_BASE_URL'')
      \<and> (has_field env ''ANTHROPIC_BASE_URL'' \<longrightarrow> is_string (field env ''ANTHROPIC_BASE_URL''))
      \<and> (has_field env ''ANTHROPIC_VERTEX_BASE_URL'' \<longrightarrow>
            is_string (field env ''ANTHROPIC_VERTEX_BASE_URL''))
      \<and> (case field env ''ANTHROPIC_AUTH_TOKEN'' of None \<Rightarrow> False | Some t \<Rightarrow> token_ok t))"

text \<open>
  A valid Site Entry: it has a \<^verbatim>\<open>url\<close>, and its effective fragment resolves and has a
  valid \<^verbatim>\<open>env\<close>.
\<close>

definition entry_valid :: "(json \<Rightarrow> bool) \<Rightarrow> json \<Rightarrow> bool" where
  "entry_valid token_ok site =
     (has_field site ''url'' \<and>
      (case effective_fragment site of
         None \<Rightarrow> False
       | Some fragment \<Rightarrow>
           (case field fragment ''env'' of
              None \<Rightarrow> False
            | Some env \<Rightarrow> env_valid token_ok env)))"

text \<open>
  A valid store in the words of the specification: an object whose \<^verbatim>\<open>sites\<close> is an object
  of valid Site Entries.
\<close>

definition spec_valid :: "json \<Rightarrow> bool" where
  "spec_valid store =
     (case field store ''sites'' of
        Some (JObj entries) \<Rightarrow> list_all (\<lambda>p. entry_valid token_ok_spec (snd p)) entries
      | _ \<Rightarrow> False)"

text \<open>
  A valid store as the code decides it: \<^verbatim>\<open>sites\<close> may also be an array of Site Entries,
  and a token may also be a non-empty array.
\<close>

definition code_valid :: "json \<Rightarrow> bool" where
  "code_valid store =
     (case field store ''sites'' of
        Some (JObj entries) \<Rightarrow> list_all (\<lambda>p. entry_valid token_ok_code (snd p)) entries
      | Some (JArr sites) \<Rightarrow> list_all (entry_valid token_ok_code) sites
      | _ \<Rightarrow> False)"

definition array_token_store :: json where
  "array_token_store =
     JObj [(''sites'', JObj [(''a'', JObj [(''url'', JStr ''https://a.example''),
             (''claude'', JObj [(''env'', JObj [(''ANTHROPIC_AUTH_TOKEN'', JArr [JStr ''sk-a'']),
                                               (''ANTHROPIC_BASE_URL'', JStr ''https://a.example'')])])])])]"

text \<open>
  The label-to-token entries \<^verbatim>\<open>switchConfig\<close> searches: a single string counts as one entry
  under the default label.
\<close>

definition token_entries :: "json \<Rightarrow> props" where
  "token_entries t = (case t of JStr x \<Rightarrow> [(default_token_label, JStr x)] | _ \<Rightarrow> own_props t)"

text \<open>
  An example: a store with one Site Entry in the multi-token form, and a live settings
  document left behind by a Vertex-style entry.
\<close>

definition multi_site :: json where
  "multi_site =
     JObj [(''url'', JStr ''https://b.example''),
           (''claude'', JObj [(''env'', JObj [
              (''ANTHROPIC_AUTH_TOKEN'',
                 JObj [(''Primary'', JStr ''sk-abc''), (''Backup'', JStr ''sk-def'')]),
              (''ANTHROPIC_BASE_URL'', JStr ''https://b.example'')])])]"

definition multi_store :: json where
  "multi_store = JObj [(''sites'', JObj [(''main'', multi_site)])]"

definition vertex_settings :: json where
  "vertex_settings =
     JObj [(''env'', JObj [(''ANTHROPIC_VERTEX_BASE_URL'', JStr ''https://vertex.example''),
                          (''CLAUDE_CODE_USE_VERTEX'', JStr ''1''),
                          (''HTTP_PROXY'', JStr ''http://proxy'')]),
           (''model'', JStr ''opus''),
           (''theme'', JStr ''dark'')]"

definition switch_fs :: fs where
  "switch_fs = fs_of (Doc multi_store) (Doc vertex_settings) Absent"








section \<open>Properties of deepMerge\<close>

lemma map_of_set_prop: "map_of (set_prop ps k v) k' = (if k' = k then Some v else map_of ps k')"
  by (induction ps) auto

lemma merge_keys_other:
  "k \<notin> fst ` set src \<Longrightarrow> map_of (merge_keys r src) k = map_of r k"
proof (induction src arbitrary: r)
  case Nil
  then show ?case by simp
next
  case (Cons p src)
  obtain key v where p: "p = (key, v)" by (cases p)
  with Cons.prems have "key \<noteq> k" and "k \<notin> fst ` set src" by auto
  then show ?case
    using Cons.IH by (simp add: p map_of_set_prop)
qed

lemma merge_keys_source:
  "distinct (map fst src) \<Longrightarrow> map_of src k = Some v \<Longrightarrow>
   map_of (merge_keys r src) k =
     Some (if is_mapping v then deepMerge (or_empty (map_of r k)) v else v)"
proof (induction src arbitrary: r)
  case Nil
  then show ?case by simp
next
  case (Cons p src)
  obtain key v0 where p: "p = (key, v0)" by (cases p)
  show ?case
  proof (cases "key = k")
    case True
    with Cons.prems p have v: "v0 = v" and notin: "k \<notin> fst ` set src" by auto
    show ?thesis
      using True v merge_keys_other [OF notin] by (simp add: p map_of_set_prop)
  next
    case False
    with Cons.prems p have d: "distinct (map fst src)" and m: "map_of src k = Some v" by auto
    show ?thesis
      using False Cons.IH [OF d m] by (simp add: p map_of_set_prop)
  qed
qed




section \<open>Properties of normalizeConfig\<close>

lemma bindE_Inl [simp]: "bindE (Inl e) f = Inl e"
  by (simp add: bindE_def)

lemma bindE_Inr [simp]: "bindE (Inr x) f = f x"
  by (simp add: bindE_def)

lemma map_of_del_prop: "map_of (del_prop ps k) k' = (if k' = k then None else map_of ps k')"
  by (induction ps) (auto simp: del_prop_def)

lemma set_prop_twice: "set_prop (set_prop ps k v) k v = set_prop ps k v"
  by (induction ps) auto

lemma normalize_site_obj:
  "normalize_site (JObj ps) = Inr
     (case map_of ps ''config'' of
        None \<Rightarrow> JObj ps
      | Some g \<Rightarrow>
          if truthy g \<and> \<not> truthy_v (map_of ps ''claude'')
          then JObj (del_prop (set_prop ps ''claude'' g) ''config'')
          else (case map_of ps ''claude'' of
                  None \<Rightarrow> JObj ps
                | Some c \<Rightarrow> if truthy c \<and> truthy g \<and> c = g
                            then JObj (del_prop ps ''config'') else JObj ps))"
  by (simp add: normalize_site_def same_serialization_def split: option.splits)

lemma normalize_site_other:
  "site \<noteq> JNull \<Longrightarrow> \<not> is_mapping site \<Longrightarrow> normalize_site site = Inr site"
  by (cases site) (simp_all add: normalize_site_def)

lemma normalize_site_null: "normalize_site JNull = Inl TypeError"
  by (simp add: normalize_site_def)

lemma normalize_site_idem:
  assumes "normalize_site site = Inr site'"
  shows "normalize_site site' = Inr site'"
proof (cases site)
  case (JObj ps)
  with assms show ?thesis
    by (auto simp: normalize_site_obj map_of_del_prop map_of_set_prop
             split: option.splits if_splits)
qed (use assms in \<open>auto simp: normalize_site_def\<close>)

lemma normalize_site_entry:
  assumes "normalize_site site = Inr site'"
  shows "normalized_entry site site'"
proof (cases site)
  case (JObj ps)
  with assms show ?thesis
    by (auto simp: normalize_site_obj normalized_entry_def has_field_def field_def
                   map_of_del_prop map_of_set_prop
             split: option.splits if_splits)
qed (use assms in \<open>auto simp: normalize_site_def normalized_entry_def has_field_def field_def\<close>)

lemma map_res_idem:
  assumes "\<And>x y. f x = Inr y \<Longrightarrow> f y = Inr y"
  shows "map_res f xs = Inr ys \<Longrightarrow> map_res f ys = Inr ys"
proof (induction xs arbitrary: ys)
  case Nil
  then show ?case by simp
next
  case (Cons x xs)
  then show ?case
    by (auto split: sum.splits dest: assms)
qed

lemma for_each_site_idem:
  assumes "\<And>x y. f x = Inr y \<Longrightarrow> f y = Inr y"
    and "for_each_site f ss = Inr ss'"
  shows "for_each_site f ss' = Inr ss'"
proof (cases ss)
  case (JObj ps)
  let ?g = "\<lambda>p. case f (snd p) of Inl e \<Rightarrow> Inl e | Inr site \<Rightarrow> Inr (fst p, site)"
  have g: "\<And>x y. ?g x = Inr y \<Longrightarrow> ?g y = Inr y"
    by (auto split: sum.splits dest: assms(1))
  from assms(2) JObj obtain ps' where ps': "map_res ?g ps = Inr ps'" and ss': "ss' = JObj ps'"
    by (auto simp: for_each_site_def split: sum.splits)
  have "map_res ?g ps' = Inr ps'"
    using g ps' by (rule map_res_idem)
  then show ?thesis
    by (simp add: ss' for_each_site_def)
next
  case (JArr xs)
  from assms(2) JArr obtain xs' where xs': "map_res f xs = Inr xs'" and ss': "ss' = JArr xs'"
    by (auto simp: for_each_site_def split: sum.splits)
  have "map_res f xs' = Inr xs'"
    using assms(1) xs' by (rule map_res_idem)
  then show ?thesis
    by (simp add: ss' for_each_site_def)
qed (use assms(2) in \<open>auto simp: for_each_site_def\<close>)

lemma for_each_site_truthy:
  "for_each_site f ss = Inr ss' \<Longrightarrow> truthy ss' = truthy ss"
  by (cases ss) (auto simp: for_each_site_def split: sum.splits)

lemma normalizeConfig_idem_aux:
  assumes "normalizeConfig store = Inr store'"
  shows "normalizeConfig store' = Inr store'"
proof (cases store)
  case (JObj cps)
  show ?thesis
  proof (cases "map_of cps ''sites''")
    case None
    with assms JObj show ?thesis by (auto simp: normalizeConfig_def)
  next
    case (Some ss)
    show ?thesis
    proof (cases "truthy ss")
      case False
      with assms JObj Some show ?thesis by (auto simp: normalizeConfig_def)
    next
      case True
      with assms JObj Some obtain ss' where
        f: "for_each_site normalize_site ss = Inr ss'" and
        s': "store' = JObj (set_prop cps ''sites'' ss')"
        by (auto simp: normalizeConfig_def bindE_def split: sum.splits)
      have "for_each_site normalize_site ss' = Inr ss'"
        using normalize_site_idem f by (rule for_each_site_idem)
      moreover have "truthy ss'"
        using for_each_site_truthy [OF f] True by simp
      ultimately show ?thesis
        by (simp add: s' normalizeConfig_def map_of_set_prop set_prop_twice)
    qed
  qed
qed (use assms in \<open>auto simp: normalizeConfig_def\<close>)

lemma normalizeConfig_idem:
  "bindE (normalizeConfig store) normalizeConfig = normalizeConfig store"
  by (cases "normalizeConfig store") (simp_all add: normalizeConfig_idem_aux)

lemma map_res_lookup:
  assumes "map_res (\<lambda>p. case f (snd p) of Inl e \<Rightarrow> Inl e | Inr site \<Rightarrow> Inr (fst p, site)) ps = Inr ps'"
    and "map_of ps k = Some site"
  shows "\<exists>site'. map_of ps' k = Some site' \<and> f site = Inr site'"
  using assms
proof (induction ps arbitrary: ps')
  case Nil
  then show ?case by simp
next
  case (Cons p ps)
  then show ?case
    by (cases p) (auto split: sum.splits if_splits)
qed

lemma for_each_site_entry:
  assumes "for_each_site f ss = Inr ss'" and "field ss k = Some site"
  shows "\<exists>site'. field ss' k = Some site' \<and> f site = Inr site'"
proof -
  from assms(2) obtain ps where ss: "ss = JObj ps" and m: "map_of ps k = Some site"
    by (cases ss) (auto simp: field_def)
  from assms(1) ss obtain ps' where
    r: "map_res (\<lambda>p. case f (snd p) of Inl e \<Rightarrow> Inl e | Inr site \<Rightarrow> Inr (fst p, site)) ps = Inr ps'"
    and ss': "ss' = JObj ps'"
    by (auto simp: for_each_site_def split: sum.splits)
  from map_res_lookup [OF r m] show ?thesis
    by (simp add: ss' field_def)
qed

lemma normalizeConfig_entry:
  assumes "normalizeConfig store = Inr store'" and "site_entry store k = Some site"
  shows "\<exists>site'. site_entry store' k = Some site' \<and> normalize_site site = Inr site'"
proof -
  from assms(2) obtain cps ss where store: "store = JObj cps"
    and ss: "map_of cps ''sites'' = Some ss" and e: "field ss k = Some site"
    by (cases store) (auto simp: site_entry_def field_def split: option.splits)
  from e have t: "truthy ss" by (cases ss) (auto simp: field_def)
  from assms(1) store ss t obtain ss' where
    f: "for_each_site normalize_site ss = Inr ss'" and
    s': "store' = JObj (set_prop cps ''sites'' ss')"
    by (auto simp: normalizeConfig_def bindE_def split: sum.splits)
  from for_each_site_entry [OF f e] show ?thesis
    by (simp add: s' site_entry_def field_def map_of_set_prop)
qed

text \<open>
  Claim C5. \<^verbatim>\<open>normalizeConfig\<close> is idempotent on every store (also on one it rejects), and
  when it returns, every Site Entry of the store's \<^verbatim>\<open>sites\<close> object is normalized as
  specified: \<^verbatim>\<open>config\<close> renamed to \<^verbatim>\<open>claude\<close> when \<^verbatim>\<open>claude\<close> is absent, \<^verbatim>\<open>config\<close> dropped when
  both are present and serialize identically, the entry unchanged otherwise.
\<close>

theorem normalizeConfig_sites:
  "bindE (normalizeConfig store) normalizeConfig = normalizeConfig store
   \<and> (normalizeConfig store = Inr store' \<longrightarrow> site_entry store k = Some site \<longrightarrow>
        (\<exists>site'. site_entry store' k = Some site' \<and> normalized_entry site site'))"
  using normalizeConfig_idem normalizeConfig_entry normalize_site_entry by blast


theorem normalizeConfig_sites_witness:
  "normalizeConfig (JObj [(''sites'', JObj [(''a'', JObj [(''url'', JStr ''u''), (''config'', JObj [(''env'', JObj [])])])])])
     = Inr (JObj [(''sites'', JObj [(''a'', JObj [(''url'', JStr ''u''), (''claude'', JObj [(''env'', JObj [])])])])])
   \<and> site_entry (JObj [(''sites'', JObj [(''a'', JObj [(''url'', JStr ''u''), (''config'', JObj [(''env'', JObj [])])])])]) ''a''
     = Some (JObj [(''url'', JStr ''u''), (''config'', JObj [(''env'', JObj [])])])
   \<and> (\<exists>site'. site_entry (JObj [(''sites'', JObj [(''a'', JObj [(''url'', JStr ''u''), (''claude'', JObj [(''env'', JObj [])])])])]) ''a'' = Some site'
         \<and> normalized_entry (JObj [(''url'', JStr ''u''), (''config'', JObj [(''env'', JObj [])])]) site')"
  using normalizeConfig_sites
    [of "JObj [(''sites'', JObj [(''a'', JObj [(''url'', JStr ''u''), (''config'', JObj [(''env'', JObj [])])])])]"
        "JObj [(''sites'', JObj [(''a'', JObj [(''url'', JStr ''u''), (''claude'', JObj [(''env'', JObj [])])])])]"
        "''a''"
        "JObj [(''url'', JStr ''u''), (''config'', JObj [(''env'', JObj [])])]"]
  by (simp add: normalizeConfig_def for_each_site_def normalize_site_def site_entry_def field_def
        del_prop_def)

section \<open>Properties of getAllConfigs\<close>

lemma alias_site_obj:
  "alias_site (JObj ps) = Inr
     (case map_of ps ''claude'' of
        None \<Rightarrow> JObj ps
      | Some c \<Rightarrow>
          if truthy c \<and> \<not> truthy_v (map_of ps ''config'')
          then JObj (set_prop ps ''config'' c) else JObj ps)"
  by (simp add: alias_site_def split: option.splits)

lemma alias_site_entry:
  assumes "alias_site site = Inr site'"
  shows "aliased_entry site site'"
proof (cases site)
  case (JObj ps)
  with assms show ?thesis
    by (auto simp: alias_site_obj aliased_entry_def has_field_def field_def map_of_set_prop
             split: option.splits if_splits)
qed (use assms in \<open>auto simp: alias_site_def aliased_entry_def has_field_def field_def\<close>)

lemma aliased_entry_config:
  assumes "aliased_entry site site'" and "has_field site' ''claude''"
  shows "has_field site' ''config''"
proof (cases "has_field site ''claude'' \<and> \<not> has_field site ''config''")
  case True
  with assms(1) have f: "\<And>f. field site' f = (if f = ''config'' then field site ''claude'' else field site f)"
    by (simp add: aliased_entry_def)
  from True have "has_field site ''claude''" by simp
  then show ?thesis
    using f [of "''config''"] by (simp add: has_field_def)
next
  case False
  with assms(1) have "site' = site" by (simp add: aliased_entry_def)
  with False assms(2) show ?thesis by auto
qed

lemma load_store_doc:
  assumes "store_file s = Doc before" and "load_store s = Inr after"
    and "site_entry before k = Some site"
  shows "\<exists>site'. site_entry after k = Some site' \<and> alias_site site = Inr site'"
proof -
  from assms(3) obtain cps ss where store: "before = JObj cps"
    and ss: "map_of cps ''sites'' = Some ss" and e: "field ss k = Some site"
    by (cases before) (auto simp: site_entry_def field_def split: option.splits)
  from e have t: "truthy ss" by (cases ss) (auto simp: field_def)
  from assms(1,2) store ss t obtain ss' where
    f: "for_each_site alias_site ss = Inr ss'" and
    s': "after = JObj (set_prop cps ''sites'' ss')"
    by (auto simp: load_store_def ensureConfigDir_def pathExists_def readJson_def bindE_def
             split: sum.splits option.splits if_splits)
  from for_each_site_entry [OF f e] show ?thesis
    by (simp add: s' site_entry_def field_def map_of_set_prop)
qed

lemma getAllConfigs_Inr: "getAllConfigs s = Inr c \<longleftrightarrow> load_store s = Inr c"
  by (simp add: getAllConfigs_def split: sum.splits)

text \<open>
  Claim C1, as stated, fails: a store whose only Site Entry has the legacy \<^verbatim>\<open>config\<close> field
  and no \<^verbatim>\<open>claude\<close> field is returned by \<^verbatim>\<open>getAllConfigs\<close> as it was parsed, so the entry has
  no \<^verbatim>\<open>claude\<close> field after the load.
\<close>

theorem getAllConfigs_legacy_counterexample:
  "getAllConfigs (fs_of (Doc legacy_store) Absent Absent) = Inr legacy_store
   \<and> \<not> copied_forward legacy_store legacy_store"
proof
  show "getAllConfigs (fs_of (Doc legacy_store) Absent Absent) = Inr legacy_store"
    by (simp add: getAllConfigs_def load_store_def ensureConfigDir_def pathExists_def
          readJson_def fs_of_def legacy_store_def for_each_site_def alias_site_def)
next
  let ?S = "JObj [(''url'', JStr ''https://a.example''),
             (''config'', JObj [(''env'', JObj [(''ANTHROPIC_AUTH_TOKEN'', JStr ''sk-a''),
                                               (''ANTHROPIC_BASE_URL'', JStr ''https://a.example'')])])]"
  have e: "site_entry legacy_store ''a'' = Some ?S"
    by (simp add: legacy_store_def site_entry_def field_def)
  have h1: "has_field ?S ''config''" and h2: "\<not> has_field ?S ''claude''"
    by (simp_all add: has_field_def field_def)
  show "\<not> copied_forward legacy_store legacy_store"
  proof
    assume "copied_forward legacy_store legacy_store"
    with e h1 h2 obtain site' where "site_entry legacy_store ''a'' = Some site'"
      and "field site' ''claude'' = field ?S ''config''"
      unfolding copied_forward_def by blast
    with e show False
      by (simp add: field_def)
  qed
qed

text \<open>
  Claim C1, amended: the read-time pass of \<^verbatim>\<open>getAllConfigs\<close> goes from the current name to
  the legacy one. When the load succeeds, every Site Entry of the parsed store that has a
  \<^verbatim>\<open>claude\<close> field and no \<^verbatim>\<open>config\<close> field comes back with the same fragment under \<^verbatim>\<open>config\<close>
  too and with every other field as it was; every other entry comes back unchanged
  (nothing is deleted on read). So after the load every Site Entry with a \<^verbatim>\<open>claude\<close> field
  has a \<^verbatim>\<open>config\<close> field.
\<close>

theorem getAllConfigs_alias:
  assumes "store_file s = Doc before" and "getAllConfigs s = Inr after"
    and "site_entry before k = Some site"
  shows "\<exists>site'. site_entry after k = Some site' \<and> aliased_entry site site'
           \<and> (has_field site' ''claude'' \<longrightarrow> has_field site' ''config'')"
proof -
  from assms(2) have "load_store s = Inr after"
    by (simp add: getAllConfigs_Inr)
  from load_store_doc [OF assms(1) this assms(3)] obtain site' where
    e: "site_entry after k = Some site'" and a: "alias_site site = Inr site'"
    by blast
  from a have "aliased_entry site site'"
    by (rule alias_site_entry)
  with e aliased_entry_config show ?thesis
    by blast
qed

theorem getAllConfigs_alias_witness:
  "store_file (fs_of (Doc current_store) Absent Absent) = Doc current_store
   \<and> getAllConfigs (fs_of (Doc current_store) Absent Absent)
       = Inr (JObj [(''sites'', JObj [(''a'', JObj [(''url'', JStr ''https://a.example''),
             (''claude'', JObj [(''env'', JObj [(''ANTHROPIC_AUTH_TOKEN'', JStr ''sk-a''),
                                               (''ANTHROPIC_BASE_URL'', JStr ''https://a.example'')])]),
             (''config'', JObj [(''env'', JObj [(''ANTHROPIC_AUTH_TOKEN'', JStr ''sk-a''),
                                               (''ANTHROPIC_BASE_URL'', JStr ''https://a.example'')])])])])])
   \<and> (\<exists>site'. site_entry (JObj [(''sites'', JObj [(''a'', JObj [(''url'', JStr ''https://a.example''),
             (''claude'', JObj [(''env'', JObj [(''ANTHROPIC_AUTH_TOKEN'', JStr ''sk-a''),
                                               (''ANTHROPIC_BASE_URL'', JStr ''https://a.example'')])]),
             (''config'', JObj [(''env'', JObj [(''ANTHROPIC_AUTH_TOKEN'', JStr ''sk-a''),
                                               (''ANTHROPIC_BASE_URL'', JStr ''https://a.example'')])])])])]) ''a'' = Some site'
         \<and> has_field site' ''config'')"
  using getAllConfigs_alias
    [of "fs_of (Doc current_store) Absent Absent" current_store
        "JObj [(''sites'', JObj [(''a'', JObj [(''url'', JStr ''https://a.example''),
             (''claude'', JObj [(''env'', JObj [(''ANTHROPIC_AUTH_TOKEN'', JStr ''sk-a''),
                                               (''ANTHROPIC_BASE_URL'', JStr ''https://a.example'')])]),
             (''config'', JObj [(''env'', JObj [(''ANTHROPIC_AUTH_TOKEN'', JStr ''sk-a''),
                                               (''ANTHROPIC_BASE_URL'', JStr ''https://a.example'')])])])])]"
        "''a''"
        "JObj [(''url'', JStr ''https://a.example''),
             (''claude'', JObj [(''env'', JObj [(''ANTHROPIC_AUTH_TOKEN'', JStr ''sk-a''),
                                               (''ANTHROPIC_BASE_URL'', JStr ''https://a.example'')])])]"]
  by (simp add: getAllConfigs_def load_store_def ensureConfigDir_def pathExists_def
        readJson_def fs_of_def current_store_def for_each_site_def alias_site_def
        site_entry_def field_def has_field_def)

section \<open>Error classification of the loaders\<close>

lemma alias_site_error: "alias_site site = Inl e \<Longrightarrow> e = TypeError"
  by (cases site) (auto simp: alias_site_def split: option.splits if_splits)

lemma map_res_error:
  assumes "\<And>x e. f x = Inl e \<Longrightarrow> e = TypeError"
  shows "map_res f xs = Inl e \<Longrightarrow> e = TypeError"
proof (induction xs)
  case Nil
  then show ?case by simp
next
  case (Cons x xs)
  then show ?case
    by (auto split: sum.splits dest: assms)
qed

lemma for_each_site_error:
  assumes "\<And>x e. f x = Inl e \<Longrightarrow> e = TypeError" and "for_each_site f ss = Inl e"
  shows "e = TypeError"
proof (cases ss)
  case (JObj ps)
  let ?g = "\<lambda>p. case f (snd p) of Inl e \<Rightarrow> Inl e | Inr site \<Rightarrow> Inr (fst p, site)"
  have g: "\<And>x e. ?g x = Inl e \<Longrightarrow> e = TypeError"
    by (auto split: sum.splits dest: assms(1))
  from assms(2) JObj have "map_res ?g ps = Inl e"
    by (auto simp: for_each_site_def split: sum.splits)
  with g show ?thesis
    by (rule map_res_error)
next
  case (JArr xs)
  from assms(2) JArr have "map_res f xs = Inl e"
    by (auto simp: for_each_site_def split: sum.splits)
  with assms(1) show ?thesis
    by (rule map_res_error)
qed (use assms(2) in \<open>auto simp: for_each_site_def\<close>)

lemma load_store_doc_error:
  assumes "dir_error s = None" and "store_file s = Doc c" and "load_store s = Inl e"
  shows "e = TypeError"
proof (cases c)
  case (JObj cps)
  show ?thesis
  proof (cases "map_of cps ''sites''")
    case None
    with assms JObj show ?thesis
      by (simp add: load_store_def ensureConfigDir_def pathExists_def readJson_def)
  next
    case (Some ss)
    show ?thesis
    proof (cases "truthy ss")
      case False
      with assms JObj Some show ?thesis
        by (simp add: load_store_def ensureConfigDir_def pathExists_def readJson_def)
    next
      case True
      with assms JObj Some have "for_each_site alias_site ss = Inl e"
        by (auto simp: load_store_def ensureConfigDir_def pathExists_def readJson_def bindE_def
                 split: sum.splits)
      with alias_site_error show ?thesis
        by (rule for_each_site_error)
    qed
  qed
qed (use assms in \<open>auto simp: load_store_def ensureConfigDir_def pathExists_def readJson_def\<close>)

lemma getAllConfigs_missing:
  "getAllConfigs s = Inl ConfigFileMissing \<longleftrightarrow> dir_error s = None \<and> store_file s = Absent"
proof (cases "dir_error s")
  case (Some m)
  then show ?thesis
    by (simp add: getAllConfigs_def load_store_def ensureConfigDir_def)
next
  case None
  show ?thesis
  proof (cases "store_file s")
    case (Doc c)
    have "getAllConfigs s \<noteq> Inl ConfigFileMissing"
    proof (cases "load_store s")
      case (Inl e)
      with load_store_doc_error [OF None Doc] have "e = TypeError" by simp
      with Inl show ?thesis by (simp add: getAllConfigs_def)
    next
      case (Inr c')
      then show ?thesis by (simp add: getAllConfigs_def)
    qed
    with None Doc show ?thesis by simp
  qed (use None in \<open>auto simp: getAllConfigs_def load_store_def ensureConfigDir_def
         pathExists_def readJson_def\<close>)
qed

text \<open>
  Claim C8, as stated, fails: when the config directories cannot be created and the store
  file is absent, \<^verbatim>\<open>getAllConfigs\<close> raises the wrapped read error, not the store-file-missing
  error.
\<close>

theorem getAllConfigs_missing_counterexample:
  "store_file dir_failed_fs = Absent
   \<and> getAllConfigs dir_failed_fs
       = Inl (ReadFailed (DirFailed (FsError ''EACCES: permission denied'')))
   \<and> getAllConfigs dir_failed_fs \<noteq> Inl ConfigFileMissing"
  by (simp add: dir_failed_fs_def getAllConfigs_def load_store_def ensureConfigDir_def
        missing_marker_def)

text \<open>
  Claim C8, amended. \<^verbatim>\<open>getAllConfigs\<close> raises the unwrapped store-file-missing error exactly
  when the config directories can be ensured and the store file is absent. Every other
  load failure is wrapped as a read error, unless its own message contains the marker
  text the catch block searches for, in which case it is rethrown as it is: this covers a
  failed directory creation, an unreadable store file, malformed store JSON, and (always
  wrapped) the \<open>TypeError\<close> of a store that is \<^verbatim>\<open>null\<close> or has a \<^verbatim>\<open>null\<close> Site Entry.
  \<^verbatim>\<open>getSettings\<close> and \<^verbatim>\<open>getClaudeConfigJson\<close> return the empty object whenever their document
  is absent, unreadable or malformed.
\<close>

theorem loaders_errors:
  "(getAllConfigs s = Inl ConfigFileMissing \<longleftrightarrow> dir_error s = None \<and> store_file s = Absent)
   \<and> (dir_error s = Some m \<longrightarrow>
        getAllConfigs s = Inl (if str_includes m missing_marker then DirFailed (FsError m)
                               else ReadFailed (DirFailed (FsError m))))
   \<and> (dir_error s = None \<longrightarrow> store_file s = Unreadable m \<longrightarrow>
        getAllConfigs s = Inl (if str_includes m missing_marker then FsError m
                               else ReadFailed (FsError m)))
   \<and> (dir_error s = None \<longrightarrow> store_file s = Malformed m \<longrightarrow>
        getAllConfigs s = Inl (if str_includes m missing_marker then SyntaxError m
                               else ReadFailed (SyntaxError m)))
   \<and> (dir_error s = None \<longrightarrow> store_file s = Doc c \<longrightarrow> getAllConfigs s = Inl e \<longrightarrow>
        e = ReadFailed TypeError)
   \<and> (settings_file s \<in> {Absent, Unreadable m, Malformed m} \<longrightarrow> getSettings s = JObj [])
   \<and> (claude_json_file s \<in> {Absent, Unreadable m, Malformed m} \<longrightarrow>
        getClaudeConfigJson s = JObj [])"
proof (intro conjI impI)
  show "getAllConfigs s = Inl ConfigFileMissing \<longleftrightarrow> dir_error s = None \<and> store_file s = Absent"
    by (rule getAllConfigs_missing)
next
  assume "dir_error s = Some m"
  then show "getAllConfigs s = Inl (if str_includes m missing_marker then DirFailed (FsError m)
                               else ReadFailed (DirFailed (FsError m)))"
    by (simp add: getAllConfigs_def load_store_def ensureConfigDir_def)
next
  assume "dir_error s = None" and "store_file s = Unreadable m"
  then show "getAllConfigs s = Inl (if str_includes m missing_marker then FsError m
                               else ReadFailed (FsError m))"
    by (simp add: getAllConfigs_def load_store_def ensureConfigDir_def pathExists_def readJson_def)
next
  assume "dir_error s = None" and "store_file s = Malformed m"
  then show "getAllConfigs s = Inl (if str_includes m missing_marker then SyntaxError m
                               else ReadFailed (SyntaxError m))"
    by (simp add: getAllConfigs_def load_store_def ensureConfigDir_def pathExists_def readJson_def)
next
  assume d: "dir_error s = None" and f: "store_file s = Doc c" and g: "getAllConfigs s = Inl e"
  show "e = ReadFailed TypeError"
  proof (cases "load_store s")
    case (Inl e')
    with load_store_doc_error [OF d f] have "e' = TypeError" by simp
    with Inl g show ?thesis by (simp add: getAllConfigs_def)
  next
    case (Inr c')
    with g show ?thesis by (simp add: getAllConfigs_def)
  qed
next
  assume "settings_file s \<in> {Absent, Unreadable m, Malformed m}"
  then show "getSettings s = JObj []"
    by (auto simp: getSettings_def pathExists_def readJson_def)
next
  assume "claude_json_file s \<in> {Absent, Unreadable m, Malformed m}"
  then show "getClaudeConfigJson s = JObj []"
    by (auto simp: getClaudeConfigJson_def pathExists_def readJson_def)
qed

theorem loaders_errors_witness:
  "getAllConfigs (fs_of Absent Absent Absent) = Inl ConfigFileMissing
   \<and> getAllConfigs dir_failed_fs = Inl (ReadFailed (DirFailed (FsError ''EACCES: permission denied'')))
   \<and> getAllConfigs (fs_of (Unreadable ''EISDIR'') Absent Absent)
       = Inl (ReadFailed (FsError ''EISDIR''))
   \<and> getAllConfigs (fs_of (Malformed ''Unexpected token'') (Malformed ''Unexpected token'')
                        (Malformed ''Unexpected token''))
       = Inl (ReadFailed (SyntaxError ''Unexpected token''))
   \<and> getAllConfigs (fs_of (Malformed missing_marker) Absent Absent)
       = Inl (SyntaxError missing_marker)
   \<and> getAllConfigs (fs_of (Doc JNull) Absent Absent) = Inl (ReadFailed TypeError)
   \<and> getSettings (fs_of (Malformed ''Unexpected token'') (Malformed ''Unexpected token'')
                        (Malformed ''Unexpected token'')) = JObj []
   \<and> getClaudeConfigJson (fs_of (Malformed ''Unexpected token'') (Malformed ''Unexpected token'')
                        (Malformed ''Unexpected token'')) = JObj []"
  using loaders_errors [of "fs_of Absent Absent Absent"]
    loaders_errors [of dir_failed_fs "''EACCES: permission denied''"]
    loaders_errors [of "fs_of (Unreadable ''EISDIR'') Absent Absent" "''EISDIR''"]
    loaders_errors [of "fs_of (Malformed ''Unexpected token'') (Malformed ''Unexpected token'')
                        (Malformed ''Unexpected token'')" "''Unexpected token''"]
    loaders_errors [of "fs_of (Malformed missing_marker) Absent Absent" missing_marker]
    loaders_errors [of "fs_of (Doc JNull) Absent Absent" _ JNull "ReadFailed TypeError"]
  by (simp add: fs_of_def dir_failed_fs_def missing_marker_def getAllConfigs_def load_store_def
        ensureConfigDir_def pathExists_def readJson_def)

section \<open>Properties of validateConfig\<close>

lemma getClaudeConfig_obj:
  "getClaudeConfig (JObj ps) =
     (case effective_fragment (JObj ps) of Some f \<Rightarrow> Inr f | None \<Rightarrow> Inl MissingFragment)"
  by (auto simp: getClaudeConfig_def effective_fragment_def has_field_def field_def
           split: option.splits)

lemma effective_fragment_truthy: "effective_fragment site = Some f \<Longrightarrow> truthy f"
  by (auto simp: effective_fragment_def has_field_def split: if_splits)

lemma validate_env:
  "(bindE (get_v (Some env) ''ANTHROPIC_AUTH_TOKEN'') (\<lambda>authToken.
      if \<not> truthy_v authToken then Inr False
      else
        bindE (get_v (Some env) ''ANTHROPIC_BASE_URL'') (\<lambda>hasBaseUrl.
        bindE (get_v (Some env) ''ANTHROPIC_VERTEX_BASE_URL'') (\<lambda>hasVertexBaseUrl.
          if truthy_v hasBaseUrl \<and> truthy_v hasVertexBaseUrl then Inr False
          else if \<not> truthy_v hasBaseUrl \<and> \<not> truthy_v hasVertexBaseUrl then Inr False
          else if truthy_v hasBaseUrl \<and> \<not> is_string hasBaseUrl then Inr False
          else if truthy_v hasVertexBaseUrl \<and> \<not> is_string hasVertexBaseUrl
            then Inr False
          else
            (case authToken of
               Some (JStr t) \<Rightarrow> Inr (\<not> js_blank t)
             | Some (JObj ps) \<Rightarrow> Inr (ps \<noteq> [])
             | Some (JArr xs) \<Rightarrow> Inr (xs \<noteq> [])
             | _ \<Rightarrow> Inr False)))) = Inr True)
   \<longleftrightarrow> env_valid token_ok_code env"
proof (cases env)
  case (JObj eps)
  show ?thesis
  proof (cases "map_of eps ''ANTHROPIC_AUTH_TOKEN''")
    case None
    with JObj show ?thesis by (simp add: env_valid_def has_field_def field_def)
  next
    case (Some t)
    with JObj show ?thesis
      by (cases t) (auto simp: env_valid_def has_field_def field_def)
  qed
qed (simp_all add: env_valid_def has_field_def field_def)

lemma env_valid_truthy: "env_valid token_ok env \<Longrightarrow> truthy env"
  by (cases env) (simp_all add: env_valid_def has_field_def field_def)

lemma validate_site_iff: "validate_site site = Inr True \<longleftrightarrow> entry_valid token_ok_code site"
proof (cases site)
  case (JObj ps)
  show ?thesis
  proof (cases "truthy_v (map_of ps ''url'')")
    case False
    with JObj show ?thesis
      by (simp add: validate_site_def entry_valid_def has_field_def field_def)
  next
    case url: True
    show ?thesis
    proof (cases "effective_fragment (JObj ps)")
      case None
      with JObj url show ?thesis
        by (simp add: validate_site_def entry_valid_def getClaudeConfig_obj)
    next
      case (Some fragment)
      then have t: "truthy fragment"
        by (rule effective_fragment_truthy)
      show ?thesis
      proof (cases "field fragment ''env''")
        case None
        with t have "get fragment ''env'' = Inr None"
          by (cases fragment) (simp_all add: field_def)
        with JObj url Some None show ?thesis
          by (simp add: validate_site_def entry_valid_def getClaudeConfig_obj has_field_def
                field_def)
      next
        case env: (Some env)
        then have g: "get fragment ''env'' = Inr (Some env)"
          by (cases fragment) (simp_all add: field_def)
        show ?thesis
        proof (cases "truthy env")
          case True
          with JObj url Some env g validate_env [of env] show ?thesis
            by (simp add: validate_site_def entry_valid_def getClaudeConfig_obj has_field_def
                  field_def)
        next
          case False
          with env_valid_truthy have "\<not> env_valid token_ok_code env"
            by blast
          with False JObj url Some env g show ?thesis
            by (simp add: validate_site_def entry_valid_def getClaudeConfig_obj has_field_def
                  field_def)
        qed
      qed
    qed
  qed
qed (simp_all add: validate_site_def entry_valid_def has_field_def field_def)

lemma validate_sites_iff:
  "validate_sites entries = Inr True
   \<longleftrightarrow> list_all (\<lambda>p. entry_valid token_ok_code (snd p)) entries"
proof (induction entries)
  case Nil
  show ?case by simp
next
  case (Cons p entries)
  obtain k site where p: "p = (k, site)" by (cases p)
  show ?case
  proof (cases "validate_site site")
    case (Inl e)
    with validate_site_iff [of site] show ?thesis
      by (simp add: p)
  next
    case (Inr ok)
    with validate_site_iff [of site] Cons.IH show ?thesis
      by (cases ok) (simp_all add: p)
  qed
qed

lemma length_index_keys [simp]: "length (index_keys n) = n"
  by (simp add: index_keys_def)

lemma list_all_snd: "list_all (\<lambda>p. P (snd p)) ys = list_all P (map snd ys)"
  by (induction ys) auto

lemma list_all_own_props_array:
  "list_all (\<lambda>p. P (snd p)) (own_props (JArr xs)) = list_all P xs"
  by (simp add: list_all_snd)

text \<open>
  Claim C6, as stated, fails: a store whose Site Entry gives the auth token as a non-empty
  array is accepted by \<^verbatim>\<open>validateConfig\<close>, although the token is neither a string nor a
  mapping.
\<close>

theorem validateConfig_array_token_counterexample:
  "validateConfig array_token_store = Inr True \<and> \<not> spec_valid array_token_store"
  by (simp add: array_token_store_def validateConfig_def validate_site_def getClaudeConfig_def
        spec_valid_def entry_valid_def env_valid_def effective_fragment_def has_field_def
        field_def)

text \<open>
  Claim C6, amended. \<^verbatim>\<open>validateConfig\<close> returns true if and only if the store is an object
  whose \<^verbatim>\<open>sites\<close> is an object or an array, and every Site Entry in it has a \<^verbatim>\<open>url\<close>,
  resolves to an effective fragment (\<^verbatim>\<open>claude\<close>, else \<^verbatim>\<open>config\<close>) with an \<^verbatim>\<open>env\<close> that has
  \<^verbatim>\<open>ANTHROPIC_AUTH_TOKEN\<close>, has exactly one of the two base URLs present with the present
  one a string, and has an auth token that is a string not blank after trimming, or an
  object with at least one entry, or an array with at least one element. A field is
  present when the code's truthiness test of it succeeds.
\<close>

theorem validateConfig_iff: "validateConfig store = Inr True \<longleftrightarrow> code_valid store"
proof (cases store)
  case (JObj cps)
  show ?thesis
  proof (cases "map_of cps ''sites''")
    case None
    with JObj show ?thesis
      by (simp add: validateConfig_def code_valid_def field_def)
  next
    case (Some ss)
    show ?thesis
    proof (cases ss)
      case (JArr xs)
      with JObj Some list_all_own_props_array [of "entry_valid token_ok_code" xs] show ?thesis
        by (simp add: validateConfig_def code_valid_def field_def validate_sites_iff)
    qed (use JObj Some in \<open>simp_all add: validateConfig_def code_valid_def field_def
           validate_sites_iff\<close>)
  qed
qed (simp_all add: validateConfig_def code_valid_def field_def)

theorem validateConfig_iff_witness:
  "validateConfig current_store = Inr True \<and> code_valid current_store
   \<and> validateConfig legacy_store = Inr True \<and> code_valid legacy_store"
  using validateConfig_iff [of current_store] validateConfig_iff [of legacy_store]
  by (simp add: current_store_def legacy_store_def validateConfig_def validate_site_def
        getClaudeConfig_def ws1_def ws2_def ws3_def)

section \<open>Properties of switchConfig\<close>

lemma writeFile_ok: "writeFile s p v = Inr s' \<Longrightarrow> s' = put_file s p (Doc v)"
  by (auto simp: writeFile_def split: option.splits)

lemma saveSettings_ok: "saveSettings s v = Inr s' \<Longrightarrow> s' = s\<lparr>settings_file := Doc v\<rparr>"
  by (auto simp: saveSettings_def wrap_def bindE_def ensureConfigDir_def
           dest: writeFile_ok split: sum.splits option.splits)

lemma saveClaudeConfigJson_ok:
  "saveClaudeConfigJson s v = Inr s' \<Longrightarrow> s' = s\<lparr>claude_json_file := Doc v\<rparr>"
  by (auto simp: saveClaudeConfigJson_def wrap_def bindE_def ensureConfigDir_def
           dest: writeFile_ok split: sum.splits option.splits)

lemma saveCurrentConfig_ok:
  assumes "saveCurrentConfig s now config = Inr s'"
  shows "\<exists>allConfigs allConfigs' normalized.
           getAllConfigs s = Inr allConfigs
         \<and> assign allConfigs ''currentConfig''
              (to_json [(''site'', mget config ''site''),
                 (''siteName'', mget config ''siteName''),
                 (''url'', mget config ''url''),
                 (''urlName'', mget config ''urlName''),
                 (''token'', mget config ''token''),
                 (''tokenName'', mget config ''tokenName''),
                 (''updatedAt'', Some (JStr now))]) = Inr allConfigs'
         \<and> normalizeConfig allConfigs' = Inr normalized
         \<and> s' = s\<lparr>store_file := Doc normalized\<rparr>"
  using assms
  by (auto simp: saveCurrentConfig_def wrap_def bindE_def ensureConfigDir_def Let_def
           dest!: writeFile_ok split: sum.splits option.splits)

lemma getSettings_store [simp]: "getSettings (s\<lparr>store_file := f\<rparr>) = getSettings s"
  by (simp add: getSettings_def pathExists_def readJson_def)

lemma getClaudeConfigJson_store [simp]:
  "getClaudeConfigJson (s\<lparr>store_file := f\<rparr>) = getClaudeConfigJson s"
  by (simp add: getClaudeConfigJson_def pathExists_def readJson_def)

lemma build_snapshot_siteName:
  "build_snapshot site token claudeConfig = Inr config \<Longrightarrow> mget config ''siteName'' = Some (JStr site)"
  by (auto simp: build_snapshot_def bindE_def mget_def Let_def split: sum.splits)

lemma switchConfig_steps:
  assumes "switchConfig s now site token siteConfig = Inr (config, s')"
  shows "\<exists>claudeConfig s1 configJson' cleared configToMerge.
           getClaudeConfig siteConfig = Inr claudeConfig
         \<and> build_snapshot site token claudeConfig = Inr config
         \<and> saveCurrentConfig s now config = Inr s1
         \<and> set_primary_key (getClaudeConfigJson s) (JStr site) = Inr configJson'
         \<and> clear_settings (getSettings s) = Inr cleared
         \<and> config_to_merge claudeConfig token = Inr configToMerge
         \<and> s' = s1\<lparr>settings_file := Doc (deepMerge cleared configToMerge),
                     claude_json_file := Doc configJson'\<rparr>
         \<and> settings_write_error s = None \<and> claude_json_write_error s = None"
proof -
  from assms obtain claudeConfig where 1: "getClaudeConfig siteConfig = Inr claudeConfig"
    by (cases "getClaudeConfig siteConfig") (auto simp: switchConfig_def wrap_def)
  from assms 1 have 2: "build_snapshot site token claudeConfig = Inr config"
    by (cases "build_snapshot site token claudeConfig")
       (auto simp: switchConfig_def wrap_def bindE_def Let_def split: sum.splits)
  from assms 1 2 obtain s1 where 3: "saveCurrentConfig s now config = Inr s1"
    by (cases "saveCurrentConfig s now config") (auto simp: switchConfig_def wrap_def)
  from saveCurrentConfig_ok [OF 3] obtain d where s1: "s1 = s\<lparr>store_file := Doc d\<rparr>"
    by blast
  note sn = build_snapshot_siteName [OF 2]
  from assms 1 2 3 s1 sn obtain configJson' where
    4: "set_primary_key (getClaudeConfigJson s) (JStr site) = Inr configJson'"
    by (cases "set_primary_key (getClaudeConfigJson s) (JStr site)")
       (auto simp: switchConfig_def wrap_def Let_def)
  from assms 1 2 3 s1 sn 4 obtain cleared where 5: "clear_settings (getSettings s) = Inr cleared"
    by (cases "clear_settings (getSettings s)") (auto simp: switchConfig_def wrap_def Let_def)
  from assms 1 2 3 s1 sn 4 5 obtain configToMerge where
    6: "config_to_merge claudeConfig token = Inr configToMerge"
    by (cases "config_to_merge claudeConfig token") (auto simp: switchConfig_def wrap_def Let_def)
  from assms 1 2 3 s1 sn 4 5 6 obtain s2 where
    7: "saveSettings s1 (deepMerge cleared configToMerge) = Inr s2"
    by (cases "saveSettings s1 (deepMerge cleared configToMerge)")
       (auto simp: switchConfig_def wrap_def Let_def simp del: deepMerge.simps)
  from assms 1 2 3 s1 sn 4 5 6 7 have
    8: "saveClaudeConfigJson s2 configJson' = Inr s'"
    by (cases "saveClaudeConfigJson s2 configJson'")
       (auto simp: switchConfig_def wrap_def Let_def simp del: deepMerge.simps)
  from saveSettings_ok [OF 7] saveClaudeConfigJson_ok [OF 8]
  have s': "s' = s1\<lparr>settings_file := Doc (deepMerge cleared configToMerge),
                     claude_json_file := Doc configJson'\<rparr>"
    by simp
  from 7 s1 have w1: "settings_write_error s = None"
    by (auto simp: saveSettings_def wrap_def bindE_def writeFile_def
             split: sum.splits option.splits)
  from 8 saveSettings_ok [OF 7] s1 have w2: "claude_json_write_error s = None"
    by (auto simp: saveClaudeConfigJson_def wrap_def bindE_def writeFile_def
             split: sum.splits option.splits)
  from 1 2 3 4 5 6 s' w1 w2 show ?thesis
    by blast
qed

lemma build_snapshot_ok:
  assumes "build_snapshot site token c = Inr config"
  shows "\<exists>fps eps t. c = JObj fps \<and> map_of fps ''env'' = Some (JObj eps)
           \<and> map_of eps ''ANTHROPIC_AUTH_TOKEN'' = Some t \<and> t \<noteq> JNull
           \<and> config = [(''site'', Some (JStr site)),
                    (''siteName'', Some (JStr site)),
                    (''ANTHROPIC_BASE_URL'', map_of eps ''ANTHROPIC_BASE_URL''),
                    (''token'', Some (JStr token)),
                    (''tokenName'', map_option JStr (find_key (token_entries t) (JStr token)))]"
proof (cases c)
  case (JObj fps)
  show ?thesis
  proof (cases "map_of fps ''env''")
    case None
    with assms JObj show ?thesis by (simp add: build_snapshot_def)
  next
    case (Some e)
    show ?thesis
    proof (cases e)
      case e: (JObj eps)
      show ?thesis
      proof (cases "map_of eps ''ANTHROPIC_AUTH_TOKEN''")
        case None
        with assms JObj Some e show ?thesis by (simp add: build_snapshot_def)
      next
        case t: (Some t)
        with assms JObj Some e show ?thesis
          by (cases t) (auto simp: build_snapshot_def token_entries_def)
      qed
    qed (use assms JObj Some in \<open>simp_all add: build_snapshot_def\<close>)
  qed
qed (use assms in \<open>simp_all add: build_snapshot_def\<close>)

lemma build_snapshot_any_token:
  assumes "build_snapshot site token c = Inr config"
  shows "\<exists>config'. build_snapshot site token' c = Inr config'"
proof -
  from build_snapshot_ok [OF assms] obtain fps eps t where
    "c = JObj fps" "map_of fps ''env'' = Some (JObj eps)"
    "map_of eps ''ANTHROPIC_AUTH_TOKEN'' = Some t" "t \<noteq> JNull"
    by blast
  then show ?thesis
    by (cases t) (simp_all add: build_snapshot_def)
qed

lemma config_to_merge_obj:
  assumes "map_of fps ''env'' = Some (JObj eps)" and "map_of eps ''ANTHROPIC_AUTH_TOKEN'' = Some t"
  shows "config_to_merge (JObj fps) token =
           Inr (JObj (if truthy t
                      then set_prop fps ''env'' (JObj (set_prop eps ''ANTHROPIC_AUTH_TOKEN'' (JStr token)))
                      else fps))"
  using assms by (simp add: config_to_merge_def)

lemma map_fst_set_prop:
  "map fst (set_prop ps k v) = (if k \<in> set (map fst ps) then map fst ps else map fst ps @ [k])"
  by (induction ps) force+

lemma distinct_set_prop: "distinct (map fst ps) \<Longrightarrow> distinct (map fst (set_prop ps k v))"
  by (simp add: map_fst_set_prop)

lemma find_key_first:
  "tokens = before @ (label, x) # after \<Longrightarrow> x \<notin> snd ` set before \<Longrightarrow>
   find_key tokens x = Some label"
  by (induction before arbitrary: tokens) auto

lemma find_key_none: "x \<notin> snd ` set tokens \<Longrightarrow> find_key tokens x = None"
  by (induction tokens) auto

lemma field_deepMerge:
  "field (deepMerge target source) k = map_of (merge_keys (own_props target) (own_props source)) k"
  by (simp add: field_def)

lemma merged_env_token:
  assumes "distinct (map fst fps)" and "distinct (map fst eps)"
    and "map_of fps ''env'' = Some (JObj eps)"
  shows "\<exists>env'. field (deepMerge cleared
                   (JObj (set_prop fps ''env''
                      (JObj (set_prop eps ''ANTHROPIC_AUTH_TOKEN'' (JStr token)))))) ''env''
                 = Some env'
              \<and> field env' ''ANTHROPIC_AUTH_TOKEN'' = Some (JStr token)"
proof -
  let ?eps = "set_prop eps ''ANTHROPIC_AUTH_TOKEN'' (JStr token)"
  let ?fps = "set_prop fps ''env'' (JObj ?eps)"
  let ?d = "or_empty (map_of (own_props cleared) ''env'')"
  have d1: "distinct (map fst ?fps)" and d2: "distinct (map fst ?eps)"
    using assms(1,2) by (simp_all add: distinct_set_prop)
  have m1: "map_of ?fps ''env'' = Some (JObj ?eps)"
    by (simp add: map_of_set_prop)
  have m2: "map_of ?eps ''ANTHROPIC_AUTH_TOKEN'' = Some (JStr token)"
    by (simp add: map_of_set_prop)
  have "field (deepMerge cleared (JObj ?fps)) ''env'' = Some (deepMerge ?d (JObj ?eps))"
    using merge_keys_source [OF d1 m1, of "own_props cleared"]
    by (simp add: field_deepMerge del: deepMerge.simps)
  moreover have "field (deepMerge ?d (JObj ?eps)) ''ANTHROPIC_AUTH_TOKEN'' = Some (JStr token)"
    using merge_keys_source [OF d2 m2, of "own_props ?d"]
    by (simp add: field_deepMerge del: deepMerge.simps)
  ultimately show ?thesis
    by blast
qed

lemma normalizeConfig_currentConfig:
  assumes "normalizeConfig (JObj (set_prop ps ''currentConfig'' x)) = Inr n"
  shows "\<exists>n'. normalizeConfig (JObj (set_prop ps ''currentConfig'' y)) = Inr n'"
proof (cases "map_of ps ''sites''")
  case None
  then show ?thesis
    by (simp add: normalizeConfig_def map_of_set_prop)
next
  case (Some ss)
  show ?thesis
  proof (cases "truthy ss")
    case False
    with Some show ?thesis
      by (simp add: normalizeConfig_def map_of_set_prop)
  next
    case True
    with Some assms obtain ss' where "for_each_site normalize_site ss = Inr ss'"
      by (cases "for_each_site normalize_site ss")
         (auto simp: normalizeConfig_def map_of_set_prop)
    with Some True show ?thesis
      by (simp add: normalizeConfig_def map_of_set_prop)
  qed
qed

lemma saveCurrentConfig_any:
  assumes "saveCurrentConfig s now config = Inr s1"
  shows "\<exists>s1'. saveCurrentConfig s now config' = Inr s1'"
proof -
  let ?snap = "\<lambda>c. to_json [(''site'', mget c ''site''),
                 (''siteName'', mget c ''siteName''),
                 (''url'', mget c ''url''),
                 (''urlName'', mget c ''urlName''),
                 (''token'', mget c ''token''),
                 (''tokenName'', mget c ''tokenName''),
                 (''updatedAt'', Some (JStr now))]"
  from saveCurrentConfig_ok [OF assms] obtain allConfigs allConfigs' normalized where
    a: "getAllConfigs s = Inr allConfigs"
    and b: "assign allConfigs ''currentConfig'' (?snap config) = Inr allConfigs'"
    and c: "normalizeConfig allConfigs' = Inr normalized"
    by blast
  from assms have e: "dir_error s = None" "store_write_error s = None"
    by (auto simp: saveCurrentConfig_def wrap_def bindE_def ensureConfigDir_def Let_def
          writeFile_def split: sum.splits option.splits)
  have "\<exists>all'' n'. assign allConfigs ''currentConfig'' (?snap config') = Inr all''
          \<and> normalizeConfig all'' = Inr n'"
  proof (cases allConfigs)
    case (JObj ps)
    with b c normalizeConfig_currentConfig [of ps "?snap config" normalized "?snap config'"]
    show ?thesis by auto
  next
    case (JArr xs)
    with b c show ?thesis by auto
  qed (use b in \<open>simp_all\<close>)
  then obtain all'' n' where "assign allConfigs ''currentConfig'' (?snap config') = Inr all''"
    and "normalizeConfig all'' = Inr n'"
    by blast
  with a e show ?thesis
    by (simp add: saveCurrentConfig_def wrap_def ensureConfigDir_def Let_def writeFile_def
          del: to_json.simps)
qed

lemma config_to_merge_any:
  assumes "build_snapshot site token c = Inr config"
  shows "\<exists>m. config_to_merge c token' = Inr m"
proof -
  from build_snapshot_ok [OF assms] obtain fps eps t where
    "c = JObj fps" "map_of fps ''env'' = Some (JObj eps)"
    "map_of eps ''ANTHROPIC_AUTH_TOKEN'' = Some t"
    by blast
  then show ?thesis
    by (simp add: config_to_merge_obj)
qed

lemma switchConfig_any_token:
  assumes "switchConfig s now site token siteConfig = Inr (config, s')"
  shows "\<exists>r. switchConfig s now site token' siteConfig = Inr r"
proof -
  from switchConfig_steps [OF assms] obtain claudeConfig s1 configJson' cleared
    where 1: "getClaudeConfig siteConfig = Inr claudeConfig"
      and 2: "build_snapshot site token claudeConfig = Inr config"
      and 3: "saveCurrentConfig s now config = Inr s1"
      and 4: "set_primary_key (getClaudeConfigJson s) (JStr site) = Inr configJson'"
      and 5: "clear_settings (getSettings s) = Inr cleared"
      and w: "settings_write_error s = None" "claude_json_write_error s = None"
    by blast
  from build_snapshot_any_token [OF 2] obtain config' where
    b2: "build_snapshot site token' claudeConfig = Inr config'" by blast
  from saveCurrentConfig_any [OF 3] obtain s1' where
    b3: "saveCurrentConfig s now config' = Inr s1'" by blast
  from saveCurrentConfig_ok [OF b3] obtain d where s1': "s1' = s\<lparr>store_file := Doc d\<rparr>"
    by blast
  from b3 have e: "dir_error s = None"
    by (auto simp: saveCurrentConfig_def wrap_def bindE_def ensureConfigDir_def
             split: sum.splits option.splits)
  from config_to_merge_any [OF 2] obtain m where
    b6: "config_to_merge claudeConfig token' = Inr m" by blast
  note sn = build_snapshot_siteName [OF b2]
  show ?thesis
    using 1 b2 b3 s1' sn 4 5 b6 w e
    by (simp add: switchConfig_def wrap_def Let_def saveSettings_def saveClaudeConfigJson_def
          ensureConfigDir_def writeFile_def del: deepMerge.simps)
qed





lemma prop_of_obj [simp]: "prop_of (JObj ps) k = map_of ps k"
  by (simp add: prop_of_def)










lemma load_store_object:
  assumes "load_store s = Inr a" and "store_file s = Doc (JObj cps)"
  shows "\<exists>aps. a = JObj aps"
proof (cases "map_of cps ''sites''")
  case None
  with assms show ?thesis
    by (auto simp: load_store_def ensureConfigDir_def pathExists_def readJson_def bindE_def
             split: sum.splits option.splits if_splits)
next
  case (Some ss)
  with assms show ?thesis
    by (cases "truthy ss")
       (auto simp: load_store_def ensureConfigDir_def pathExists_def readJson_def bindE_def
             split: sum.splits option.splits if_splits)
qed

lemma normalizeConfig_field:
  assumes "normalizeConfig c = Inr n" and "k \<noteq> ''sites''"
  shows "field n k = field c k"
proof (cases c)
  case (JObj cps)
  show ?thesis
  proof (cases "map_of cps ''sites''")
    case None
    with assms JObj show ?thesis by (auto simp: normalizeConfig_def)
  next
    case (Some ss)
    with assms JObj show ?thesis
      by (cases "truthy ss")
         (auto simp: normalizeConfig_def bindE_def field_def map_of_set_prop split: sum.splits)
  qed
qed (use assms in \<open>auto simp: normalizeConfig_def\<close>)

lemmas switch_defs = switchConfig_def wrap_def Let_def getClaudeConfig_def build_snapshot_def
  saveCurrentConfig_def ensureConfigDir_def getAllConfigs_def load_store_def pathExists_def
  readJson_def for_each_site_def alias_site_def normalizeConfig_def normalize_site_def
  same_serialization_def writeFile_def mget_def getSettings_def getClaudeConfigJson_def
  set_primary_key_def clear_settings_def clear_env_def stale_env_keys_def config_to_merge_def
  saveSettings_def saveClaudeConfigJson_def or_empty_def del_prop_def fs_of_def
  multi_site_def multi_store_def vertex_settings_def switch_fs_def

lemma switch_example:
  "\<exists>config s'. switchConfig switch_fs ''T'' ''main'' token multi_site = Inr (config, s')"
  by (simp add: switch_defs)

text \<open>
  Claim C2. What a successful \<^verbatim>\<open>switchConfig\<close> on an object store persists as
  \<^verbatim>\<open>currentConfig\<close>: the site key, a \<^verbatim>\<open>siteName\<close> equal to it, the chosen token, its resolved
  name and the time of the call, and no base URL under any key. \<^verbatim>\<open>switchConfig\<close> puts the
  fragment's base URL under \<^verbatim>\<open>ANTHROPIC_BASE_URL\<close> of the object it builds and returns,
  while \<^verbatim>\<open>saveCurrentConfig\<close> reads \<^verbatim>\<open>config.url\<close>, which that object does not have.
\<close>

theorem switchConfig_snapshot:
  assumes "switchConfig s now site token siteConfig = Inr (config, s')"
    and "store_file s = Doc store" and "is_mapping store"
  shows "\<exists>store' snapshot fragment env.
           store_file s' = Doc store' \<and> field store' ''currentConfig'' = Some snapshot
         \<and> field snapshot ''site'' = Some (JStr site)
         \<and> field snapshot ''siteName'' = Some (JStr site)
         \<and> field snapshot ''token'' = Some (JStr token)
         \<and> field snapshot ''tokenName'' = mget config ''tokenName''
         \<and> field snapshot ''updatedAt'' = Some (JStr now)
         \<and> field snapshot ''url'' = None
         \<and> field snapshot ''urlName'' = None
         \<and> field snapshot ''ANTHROPIC_BASE_URL'' = None
         \<and> getClaudeConfig siteConfig = Inr fragment \<and> field fragment ''env'' = Some env
         \<and> mget config ''ANTHROPIC_BASE_URL'' = field env ''ANTHROPIC_BASE_URL''
         \<and> mget config ''url'' = None
         \<and> mget config ''updatedAt'' = None"
proof -
  from switchConfig_steps [OF assms(1)]
  obtain fragment s1 configJson' cleared configToMerge
    where 1: "getClaudeConfig siteConfig = Inr fragment"
      and 2: "build_snapshot site token fragment = Inr config"
      and 3: "saveCurrentConfig s now config = Inr s1"
      and s': "s' = s1\<lparr>settings_file := Doc (deepMerge cleared configToMerge),
                     claude_json_file := Doc configJson'\<rparr>"
    by auto
  from build_snapshot_ok [OF 2] obtain fps eps t where
    f: "fragment = JObj fps" and e: "map_of fps ''env'' = Some (JObj eps)"
    and c: "config = [(''site'', Some (JStr site)),
                    (''siteName'', Some (JStr site)),
                    (''ANTHROPIC_BASE_URL'', map_of eps ''ANTHROPIC_BASE_URL''),
                    (''token'', Some (JStr token)),
                    (''tokenName'', map_option JStr (find_key (token_entries t) (JStr token)))]"
    by blast
  define snapshot where
    "snapshot = to_json [(''site'', mget config ''site''),
                 (''siteName'', mget config ''siteName''),
                 (''url'', mget config ''url''),
                 (''urlName'', mget config ''urlName''),
                 (''token'', mget config ''token''),
                 (''tokenName'', mget config ''tokenName''),
                 (''updatedAt'', Some (JStr now))]"
  from saveCurrentConfig_ok [OF 3] obtain allConfigs allConfigs' normalized where
    a: "getAllConfigs s = Inr allConfigs"
    and b: "assign allConfigs ''currentConfig'' snapshot = Inr allConfigs'"
    and n: "normalizeConfig allConfigs' = Inr normalized"
    and s1: "s1 = s\<lparr>store_file := Doc normalized\<rparr>"
    unfolding snapshot_def by blast
  from assms(3) obtain cps where "store = JObj cps"
    by (cases store) auto
  with assms(2) have sf0: "store_file s = Doc (JObj cps)"
    by simp
  from a have "load_store s = Inr allConfigs"
    by (simp add: getAllConfigs_Inr)
  from load_store_object [OF this sf0] obtain aps where "allConfigs = JObj aps"
    by blast
  with b have "field allConfigs' ''currentConfig'' = Some snapshot"
    by (auto simp: field_def map_of_set_prop)
  with normalizeConfig_field [OF n, of "''currentConfig''"]
  have cc: "field normalized ''currentConfig'' = Some snapshot"
    by simp
  have st: "store_file s' = Doc normalized"
    by (simp add: s' s1)
  have fe: "field fragment ''env'' = Some (JObj eps)"
    using f e by (simp add: field_def)
  have sf: "field snapshot ''site'' = Some (JStr site)"
      "field snapshot ''siteName'' = Some (JStr site)"
      "field snapshot ''token'' = Some (JStr token)"
      "field snapshot ''tokenName'' = mget config ''tokenName''"
      "field snapshot ''updatedAt'' = Some (JStr now)"
      "field snapshot ''url'' = None"
      "field snapshot ''urlName'' = None"
      "field snapshot ''ANTHROPIC_BASE_URL'' = None"
    by (cases "find_key (token_entries t) (JStr token)";
        simp add: snapshot_def c mget_def field_def)+
  have cf: "mget config ''ANTHROPIC_BASE_URL'' = field (JObj eps) ''ANTHROPIC_BASE_URL''"
      "mget config ''url'' = None" "mget config ''updatedAt'' = None"
    by (simp_all add: c mget_def field_def split: option.splits)
  from st cc sf 1 fe cf show ?thesis
    by blast
qed

theorem switchConfig_snapshot_witness:
  "\<exists>config s' store' snapshot.
       switchConfig switch_fs ''T'' ''main'' ''sk-def'' multi_site = Inr (config, s')
     \<and> store_file s' = Doc store' \<and> field store' ''currentConfig'' = Some snapshot
     \<and> field snapshot ''url'' = None
     \<and> mget config ''ANTHROPIC_BASE_URL'' = Some (JStr ''https://b.example'')"
proof -
  from switch_example [of "''sk-def''"] obtain config s' where
    r: "switchConfig switch_fs ''T'' ''main'' ''sk-def'' multi_site = Inr (config, s')"
    by blast
  have f: "store_file switch_fs = Doc multi_store" and m: "is_mapping multi_store"
    by (simp_all add: switch_fs_def fs_of_def multi_store_def)
  from switchConfig_snapshot [OF r f m] obtain store' snapshot fragment env where
    a: "store_file s' = Doc store'" "field store' ''currentConfig'' = Some snapshot"
      "field snapshot ''url'' = None"
    and g: "getClaudeConfig multi_site = Inr fragment" "field fragment ''env'' = Some env"
    and u: "mget config ''ANTHROPIC_BASE_URL'' = field env ''ANTHROPIC_BASE_URL''"
    by blast
  from g have "field env ''ANTHROPIC_BASE_URL'' = Some (JStr ''https://b.example'')"
    by (auto simp: getClaudeConfig_def multi_site_def field_def)
  with r a u show ?thesis
    by auto
qed

text \<open>
  Claim C3. Let a call of \<^verbatim>\<open>switchConfig\<close> succeed on a Site Entry whose effective fragment
  gives \<^verbatim>\<open>env.ANTHROPIC_AUTH_TOKEN\<close> as a label-to-token mapping. If the mapping has an entry
  whose value is the supplied token, the returned snapshot's \<^verbatim>\<open>tokenName\<close> is the label of
  that entry (of the first one, should several labels carry the same token); if no label
  carries the token, \<^verbatim>\<open>tokenName\<close> is \<^verbatim>\<open>undefined\<close>. The live settings document written by the
  call holds the chosen token string at \<^verbatim>\<open>env.ANTHROPIC_AUTH_TOKEN\<close>, not the mapping. And
  the call succeeds for every other token as well, whether or not a label carries it.
\<close>

theorem switchConfig_token_name:
  assumes "switchConfig s now site token siteConfig = Inr (config, s')"
    and "getClaudeConfig siteConfig = Inr fragment"
    and "field fragment ''env'' = Some env"
    and "field env ''ANTHROPIC_AUTH_TOKEN'' = Some (JObj tokens)"
    and "distinct (map fst (own_props fragment))" and "distinct (map fst (own_props env))"
  shows "(\<forall>before label after. tokens = before @ (label, JStr token) # after \<longrightarrow>
            JStr token \<notin> snd ` set before \<longrightarrow> mget config ''tokenName'' = Some (JStr label))
       \<and> (JStr token \<notin> snd ` set tokens \<longrightarrow> mget config ''tokenName'' = None)
       \<and> (\<exists>settings env'. settings_file s' = Doc settings \<and> field settings ''env'' = Some env'
             \<and> field env' ''ANTHROPIC_AUTH_TOKEN'' = Some (JStr token))
       \<and> (\<forall>token'. \<exists>r. switchConfig s now site token' siteConfig = Inr r)"
proof -
  from switchConfig_steps [OF assms(1)] assms(2)
  obtain s1 configJson' cleared configToMerge
    where 2: "build_snapshot site token fragment = Inr config"
      and 6: "config_to_merge fragment token = Inr configToMerge"
      and s': "s' = s1\<lparr>settings_file := Doc (deepMerge cleared configToMerge),
                     claude_json_file := Doc configJson'\<rparr>"
    by auto
  from build_snapshot_ok [OF 2] obtain fps eps t where
    f: "fragment = JObj fps" and e: "map_of fps ''env'' = Some (JObj eps)"
    and t: "map_of eps ''ANTHROPIC_AUTH_TOKEN'' = Some t"
    and c: "config = [(''site'', Some (JStr site)),
                    (''siteName'', Some (JStr site)),
                    (''ANTHROPIC_BASE_URL'', map_of eps ''ANTHROPIC_BASE_URL''),
                    (''token'', Some (JStr token)),
                    (''tokenName'', map_option JStr (find_key (token_entries t) (JStr token)))]"
    by blast
  from assms(3) f e have env: "env = JObj eps"
    by (simp add: field_def)
  from assms(4) env t have tk: "t = JObj tokens"
    by (simp add: field_def)
  from c tk have name: "mget config ''tokenName'' = map_option JStr (find_key tokens (JStr token))"
    by (simp add: mget_def token_entries_def)
  from 6 f e t tk have m: "configToMerge =
      JObj (set_prop fps ''env'' (JObj (set_prop eps ''ANTHROPIC_AUTH_TOKEN'' (JStr token))))"
    by (simp add: config_to_merge_obj)
  from assms(5,6) f env have d: "distinct (map fst fps)" "distinct (map fst eps)"
    by simp_all
  have "\<exists>settings env'. settings_file s' = Doc settings \<and> field settings ''env'' = Some env'
             \<and> field env' ''ANTHROPIC_AUTH_TOKEN'' = Some (JStr token)"
    using merged_env_token [OF d e, of cleared token] by (simp add: s' m del: deepMerge.simps)
  moreover have "\<forall>token'. \<exists>r. switchConfig s now site token' siteConfig = Inr r"
    using switchConfig_any_token [OF assms(1)] by blast
  ultimately show ?thesis
    using name by (auto simp: find_key_first find_key_none)
qed

theorem switchConfig_token_name_witness:
  "\<exists>config s'. switchConfig switch_fs ''T'' ''main'' ''sk-def'' multi_site = Inr (config, s')
     \<and> mget config ''tokenName'' = Some (JStr ''Backup'')
     \<and> (\<exists>settings env'. settings_file s' = Doc settings \<and> field settings ''env'' = Some env'
           \<and> field env' ''ANTHROPIC_AUTH_TOKEN'' = Some (JStr ''sk-def''))
     \<and> (\<exists>r. switchConfig switch_fs ''T'' ''main'' ''sk-unlisted'' multi_site = Inr r)"
proof -
  let ?tokens = "[(''Primary'', JStr ''sk-abc''), (''Backup'', JStr ''sk-def'')]"
  let ?env = "JObj [(''ANTHROPIC_AUTH_TOKEN'', JObj ?tokens),
                    (''ANTHROPIC_BASE_URL'', JStr ''https://b.example'')]"
  let ?fragment = "JObj [(''env'', ?env)]"
  from switch_example [of "''sk-def''"] obtain config s' where
    r: "switchConfig switch_fs ''T'' ''main'' ''sk-def'' multi_site = Inr (config, s')"
    by blast
  have g: "getClaudeConfig multi_site = Inr ?fragment"
    by (simp add: getClaudeConfig_def multi_site_def)
  have e: "field ?fragment ''env'' = Some ?env"
    and t: "field ?env ''ANTHROPIC_AUTH_TOKEN'' = Some (JObj ?tokens)"
    and d: "distinct (map fst (own_props ?fragment))" "distinct (map fst (own_props ?env))"
    by (simp_all add: field_def)
  note T = switchConfig_token_name [OF r g e t d]
  from T have "?tokens = [(''Primary'', JStr ''sk-abc'')] @ (''Backup'', JStr ''sk-def'') # [] \<longrightarrow>
      JStr ''sk-def'' \<notin> snd ` set [(''Primary'', JStr ''sk-abc'')] \<longrightarrow>
      mget config ''tokenName'' = Some (JStr ''Backup'')"
    by blast
  then have n: "mget config ''tokenName'' = Some (JStr ''Backup'')"
    by simp
  from T r n show ?thesis
    by blast
qed




section \<open>Properties of the notification toggle\<close>


























end
